theory Spec2Isabelle
  imports Complex_Main "HOL-Library.Word"
begin

section \<open>Python strings\<close>

text \<open>
  A Python \<^verbatim>\<open>str\<close> is a sequence of code points and \<^verbatim>\<open>len\<close> counts them. The model
  is \<^typ>\<open>string\<close>, one \<^typ>\<open>char\<close> per code point, which covers the code points
  U+0000 to U+00FF. The methods of \<^verbatim>\<open>str\<close> the script calls are written out below for
  that range.
\<close>

definition is_space :: "char \<Rightarrow> bool" where
  \<comment> \<open>\<^verbatim>\<open>str.isspace\<close> on one code point below U+0100\<close>
  "is_space c \<longleftrightarrow> c \<in> set [CHR 0x09, CHR 0x0A, CHR 0x0B, CHR 0x0C, CHR 0x0D,
     CHR 0x1C, CHR 0x1D, CHR 0x1E, CHR 0x1F, CHR 0x20, CHR 0x85, CHR 0xA0]"

definition lstrip :: "string \<Rightarrow> string" where
  "lstrip s = dropWhile is_space s"

definition rstrip :: "string \<Rightarrow> string" where
  "rstrip s = rev (dropWhile is_space (rev s))"

definition strip :: "string \<Rightarrow> string" where
  \<comment> \<open>\<^verbatim>\<open>s.strip()\<close>\<close>
  "strip s = rstrip (lstrip s)"

definition ljust :: "nat \<Rightarrow> string \<Rightarrow> string" where
  \<comment> \<open>\<^verbatim>\<open>s.ljust(width)\<close>: spaces on the right, nothing cut\<close>
  "ljust width s = s @ replicate (width - length s) CHR '' ''"

definition str_mul :: "string \<Rightarrow> nat \<Rightarrow> string" where
  \<comment> \<open>\<^verbatim>\<open>s * n\<close>\<close>
  "str_mul s n = concat (replicate n s)"

definition startswith :: "string \<Rightarrow> string \<Rightarrow> bool" where
  \<comment> \<open>\<^verbatim>\<open>s.startswith(p)\<close>\<close>
  "startswith s p \<longleftrightarrow> take (length p) s = p"

definition py_max :: "nat \<Rightarrow> nat list \<Rightarrow> nat" where
  \<comment> \<open>\<^verbatim>\<open>max([x] + xs)\<close>: the argument list is never empty\<close>
  "py_max x xs = fold max xs x"

definition lower_char :: "char \<Rightarrow> char" where
  \<comment> \<open>\<^verbatim>\<open>str.lower\<close> on one code point below U+0100: A to Z, and U+00C0 to
      U+00DE but for the multiplication sign U+00D7\<close>
  "lower_char c =
     (let n = (of_char c :: nat) in
        if (65 \<le> n \<and> n \<le> 90) \<or> (192 \<le> n \<and> n \<le> 222 \<and> n \<noteq> 215)
        then char_of (n + 32) else c)"

definition lower :: "string \<Rightarrow> string" where
  "lower s = map lower_char s"

fun split_acc :: "string \<Rightarrow> string \<Rightarrow> string list" where
  "split_acc cur [] = (if cur = [] then [] else [cur])"
| "split_acc cur (c # cs) =
     (if is_space c then (if cur = [] then [] else [cur]) @ split_acc [] cs
      else split_acc (cur @ [c]) cs)"

definition py_split :: "string \<Rightarrow> string list" where
  \<comment> \<open>\<^verbatim>\<open>s.split()\<close>: the runs of characters that are not white space\<close>
  "py_split s = split_acc [] s"

definition split1 :: "char \<Rightarrow> string \<Rightarrow> string list" where
  \<comment> \<open>\<^verbatim>\<open>s.split(sep, 1)\<close> for a separator of one character\<close>
  "split1 sep s =
     (if sep \<in> set s
      then [takeWhile (\<lambda>c. c \<noteq> sep) s, drop 1 (dropWhile (\<lambda>c. c \<noteq> sep) s)]
      else [s])"

definition split_first :: "char \<Rightarrow> string \<Rightarrow> string" where
  \<comment> \<open>\<^verbatim>\<open>s.split(sep)[0]\<close>\<close>
  "split_first sep s = takeWhile (\<lambda>c. c \<noteq> sep) s"

fun readlines_acc :: "string \<Rightarrow> string \<Rightarrow> string list" where
  "readlines_acc cur [] = (if cur = [] then [] else [cur])"
| "readlines_acc cur (c # cs) =
     (if c = CHR 0x0A then (cur @ [c]) # readlines_acc [] cs
      else readlines_acc (cur @ [c]) cs)"

definition readlines :: "string \<Rightarrow> string list" where
  \<comment> \<open>the lines \<^verbatim>\<open>for line in f\<close> yields for a text: each ends after its newline\<close>
  "readlines text = readlines_acc [] text"

definition is_line_boundary :: "char \<Rightarrow> bool" where
  "is_line_boundary c \<longleftrightarrow> c \<in> set [CHR 0x0A, CHR 0x0D, CHR 0x0B, CHR 0x0C,
     CHR 0x1C, CHR 0x1D, CHR 0x1E, CHR 0x85]"

fun splitlines_acc :: "string \<Rightarrow> string \<Rightarrow> string list" where
  "splitlines_acc cur [] = (if cur = [] then [] else [cur])"
| "splitlines_acc cur (c # cs) =
     (if c = CHR 0x0D then
        (case cs of
           d # ds \<Rightarrow> if d = CHR 0x0A then cur # splitlines_acc [] ds
                     else cur # splitlines_acc [] cs
         | [] \<Rightarrow> cur # splitlines_acc [] cs)
      else if is_line_boundary c then cur # splitlines_acc [] cs
      else splitlines_acc (cur @ [c]) cs)"

definition splitlines :: "string \<Rightarrow> string list" where
  \<comment> \<open>\<^verbatim>\<open>s.splitlines()\<close>: the line ends are dropped, CR LF is one of them\<close>
  "splitlines s = splitlines_acc [] s"

fun contains :: "string \<Rightarrow> string \<Rightarrow> bool" where
  \<comment> \<open>\<^verbatim>\<open>sub in s\<close>\<close>
  "contains sub [] \<longleftrightarrow> sub = []"
| "contains sub (c # cs) \<longleftrightarrow> startswith (c # cs) sub \<or> contains sub cs"

definition is_digit :: "char \<Rightarrow> bool" where
  "is_digit c \<longleftrightarrow> c \<in> set ''0123456789''"

definition digit_val :: "char \<Rightarrow> int" where
  "digit_val c = int (of_char c) - 48"

fun digits_ok :: "string \<Rightarrow> bool" where
  \<comment> \<open>after a digit: digits, each underscore followed by a digit\<close>
  "digits_ok [] \<longleftrightarrow> True"
| "digits_ok (c # cs) \<longleftrightarrow>
     (if c = CHR ''_'' then (case cs of d # ds \<Rightarrow> is_digit d \<and> digits_ok cs | [] \<Rightarrow> False)
      else is_digit c \<and> digits_ok cs)"

definition digits_value :: "string \<Rightarrow> int" where
  "digits_value s = fold (\<lambda>c n. if c = CHR ''_'' then n else 10 * n + digit_val c) s 0"

definition parse_digits :: "string \<Rightarrow> int option" where
  "parse_digits s =
     (case s of
        [] \<Rightarrow> None
      | c # cs \<Rightarrow> if is_digit c \<and> digits_ok cs then Some (digits_value s) else None)"

definition int_space :: "char \<Rightarrow> bool" where
  \<comment> \<open>the white space \<^verbatim>\<open>int(s)\<close> skips around a literal: the six of C's \<^verbatim>\<open>isspace\<close>, and
      of the code points from U+0080 on those that are white space. U+001C to U+001F,
      which \<^verbatim>\<open>str.strip\<close> removes, are not skipped.\<close>
  "int_space c \<longleftrightarrow> c \<in> set [CHR 0x09, CHR 0x0A, CHR 0x0B, CHR 0x0C, CHR 0x0D, CHR 0x20,
     CHR 0x85, CHR 0xA0]"

definition int_literal :: "string \<Rightarrow> int option" where
  \<comment> \<open>the decimal literals \<^verbatim>\<open>int(s)\<close> reads, and their values: white space around, one
      sign, digits with single underscores between them\<close>
  "int_literal s =
     (case rev (dropWhile int_space (rev (dropWhile int_space s))) of
        [] \<Rightarrow> None
      | c # cs \<Rightarrow>
          if c = CHR ''-'' then map_option uminus (parse_digits cs)
          else if c = CHR ''+'' then parse_digits cs
          else parse_digits (c # cs))"

definition digit_count :: "string \<Rightarrow> nat" where
  "digit_count s = length (filter is_digit s)"

definition exceeds_digit_bound :: "nat \<Rightarrow> string \<Rightarrow> bool" where
  \<comment> \<open>the test \<^verbatim>\<open>int(s)\<close> makes on the number of digits of a literal, underscores and
      sign not counted: above the threshold of 640 digits, a bound that is not 0 is
      enforced\<close>
  "exceeds_digit_bound bound s \<longleftrightarrow>
     640 < digit_count s \<and> 0 < bound \<and> bound < digit_count s"

fun nat_digits :: "nat \<Rightarrow> string" where
  "nat_digits n =
     (if n < 10 then [''0123456789'' ! n]
      else nat_digits (n div 10) @ [''0123456789'' ! (n mod 10)])"

definition str_of_int :: "int \<Rightarrow> string" where
  \<comment> \<open>\<^verbatim>\<open>str(n)\<close> for an integer\<close>
  "str_of_int n = (if n < 0 then ''-'' @ nat_digits (nat (- n)) else nat_digits (nat n))"

function findall_quoted :: "string \<Rightarrow> string list" where
  \<comment> \<open>\<^verbatim>\<open>re.findall(r'"([^"]+)"', s)\<close>: the non-empty texts between a quote and the
      next quote, scanning from the left, each match starting after the one before\<close>
  "findall_quoted [] = []"
| "findall_quoted (c # cs) =
     (if c = CHR 0x22 then
        (let body = takeWhile (\<lambda>x. x \<noteq> CHR 0x22) cs;
             rest = dropWhile (\<lambda>x. x \<noteq> CHR 0x22) cs
         in if body \<noteq> [] \<and> rest \<noteq> [] then body # findall_quoted (drop 1 rest)
            else findall_quoted cs)
      else findall_quoted cs)"
  by pat_completeness auto
termination
  by (relation "measure length")
     (auto simp: less_Suc_eq_le intro: le_trans [OF diff_le_self length_dropWhile_le])

definition dirname :: "string \<Rightarrow> string" where
  \<comment> \<open>\<^verbatim>\<open>posixpath.dirname\<close>\<close>
  "dirname p =
     (let head = rev (dropWhile (\<lambda>c. c \<noteq> CHR ''/'') (rev p)) in
        if head \<noteq> [] \<and> head \<noteq> replicate (length head) CHR ''/''
        then rev (dropWhile (\<lambda>c. c = CHR ''/'') (rev head)) else head)"

definition path_join :: "string \<Rightarrow> string \<Rightarrow> string" where
  \<comment> \<open>\<^verbatim>\<open>posixpath.join\<close> of two parts\<close>
  "path_join a b =
     (if startswith b ''/'' then b
      else if a = [] \<or> last a = CHR ''/'' then a @ b
      else a @ ''/'' @ b)"

section \<open>Exceptions\<close>

text \<open>
  An exception is a value. All the classes below derive from \<^verbatim>\<open>Exception\<close>, so
  \<^verbatim>\<open>except Exception\<close> catches every one of them; what it does not catch
  (\<^verbatim>\<open>KeyboardInterrupt\<close>, \<^verbatim>\<open>SystemExit\<close>) is outside the model.
\<close>

datatype error =
    FileNotFoundError
  | PermissionError
  | OSError string
  | ValueError
  | UnicodeDecodeError
  | IndexError
  | AttributeError
  | ImportError
  | TypeError
  | OverflowError
  | TimeoutExpired
  | RuntimeError string
  | NotImplementedError string

type_synonym 'a res = "error + 'a"

definition is_OSError :: "error \<Rightarrow> bool" where
  \<comment> \<open>\<^verbatim>\<open>isinstance(e, OSError)\<close>\<close>
  "is_OSError e \<longleftrightarrow> (case e of FileNotFoundError \<Rightarrow> True | PermissionError \<Rightarrow> True
     | OSError m \<Rightarrow> True | _ \<Rightarrow> False)"

definition is_ValueError :: "error \<Rightarrow> bool" where
  "is_ValueError e \<longleftrightarrow> (case e of ValueError \<Rightarrow> True | UnicodeDecodeError \<Rightarrow> True | _ \<Rightarrow> False)"

definition and_then :: "'a res \<Rightarrow> ('a \<Rightarrow> 'b res) \<Rightarrow> 'b res" where
  \<comment> \<open>one statement after another: an exception of the first skips the second\<close>
  "and_then m f = (case m of Inl e \<Rightarrow> Inl e | Inr v \<Rightarrow> f v)"

definition try_except :: "'a res \<Rightarrow> (error \<Rightarrow> 'a res) \<Rightarrow> 'a res" where
  \<comment> \<open>\<^verbatim>\<open>try: body except ... as e: handler\<close>; for an exception the \<^verbatim>\<open>except\<close>
      clause does not name, the handler is \<open>Inl e\<close>\<close>
  "try_except body handler = (case body of Inl e \<Rightarrow> handler e | Inr v \<Rightarrow> Inr v)"

fun for_each :: "('s \<Rightarrow> 'a \<Rightarrow> 's res) \<Rightarrow> 'a list \<Rightarrow> 's \<Rightarrow> 's res" where
  \<comment> \<open>a \<^verbatim>\<open>for\<close> loop without \<^verbatim>\<open>break\<close> over a state\<close>
  "for_each body [] s = Inr s"
| "for_each body (x # xs) s =
     (case body s x of Inl e \<Rightarrow> Inl e | Inr s' \<Rightarrow> for_each body xs s')"

definition py_int :: "nat \<Rightarrow> string \<Rightarrow> int res" where
  \<comment> \<open>\<^verbatim>\<open>int(s)\<close> for a string, under the interpreter's bound on the digits:
      \<^verbatim>\<open>ValueError\<close> when \<open>s\<close> is no literal or has too many digits\<close>
  "py_int bound s =
     (case int_literal s of
        None \<Rightarrow> Inl ValueError
      | Some n \<Rightarrow> if exceeds_digit_bound bound s then Inl ValueError else Inr n)"

type_synonym file_text = "string \<times> error option"

definition read_all :: "file_text \<Rightarrow> string res" where
  \<comment> \<open>\<^verbatim>\<open>f.read()\<close>\<close>
  "read_all f = (case snd f of None \<Rightarrow> Inr (fst f) | Some e \<Rightarrow> Inl e)"

definition at_end :: "error option \<Rightarrow> 'a \<Rightarrow> 'a res" where
  \<comment> \<open>a loop over the lines of a file that has taken the last line: the error that ends
      the reading is raised when there is one, else the loop is over\<close>
  "at_end failure v = (case failure of None \<Rightarrow> Inr v | Some e \<Rightarrow> Inl e)"

definition for_each_line :: "('s \<Rightarrow> string \<Rightarrow> 's res) \<Rightarrow> file_text \<Rightarrow> 's \<Rightarrow> 's res" where
  \<comment> \<open>\<^verbatim>\<open>for line in f\<close> without \<^verbatim>\<open>break\<close> or \<^verbatim>\<open>return\<close>\<close>
  "for_each_line body f s =
     and_then (for_each body (readlines (fst f)) s) (\<lambda>s'. at_end (snd f) s')"

definition py_nth :: "'a list \<Rightarrow> nat \<Rightarrow> 'a res" where
  \<comment> \<open>\<^verbatim>\<open>xs[i]\<close> for an index that is not negative\<close>
  "py_nth xs i = (if i < length xs then Inr (xs ! i) else Inl IndexError)"

fun for_each_keep :: "('s \<Rightarrow> 'a \<Rightarrow> 's res) \<Rightarrow> 'a list \<Rightarrow> 's \<Rightarrow> 's \<times> error option" where
  \<comment> \<open>a \<^verbatim>\<open>for\<close> loop that changes a variable of the enclosing function: the state
      reached, and the exception that stopped the loop when there was one\<close>
  "for_each_keep body [] s = (s, None)"
| "for_each_keep body (x # xs) s =
     (case body s x of Inl e \<Rightarrow> (s, Some e) | Inr s' \<Rightarrow> for_each_keep body xs s')"

section \<open>The host\<close>

text \<open>
  Everything the script asks of its environment is a field of the record \<open>host\<close>: one
  field for each library call whose answer depends on the machine. A call that can raise
  has a result in \<^typ>\<open>'a res\<close>. The functions of the \<^verbatim>\<open>platform\<close> module,
  \<^verbatim>\<open>os.cpu_count\<close>, \<^verbatim>\<open>glob.glob\<close> and \<^verbatim>\<open>os.path.exists\<close> report what they
  cannot find out in their value and do not raise.

  \<open>open_text\<close> is opening a file as UTF-8 text. The opening raises, or there is a file to
  read: the text that reads without an error, its line ends translated to newlines, and
  the error that ends the reading after that text when there is one (bytes that do not
  decode, a failing device). A loop over the lines meets the error only when it asks for
  a line after the text; \<^verbatim>\<open>f.read()\<close> always meets it.

  \<open>int_max_str_digits\<close> is the interpreter's bound on the digits \<^verbatim>\<open>int\<close> converts,
  \<^verbatim>\<open>sys.get_int_max_str_digits()\<close>: 4300 unless configured, 0 when there is no bound. A
  \<^verbatim>\<open>float\<close> is a \<^typ>\<open>real\<close>; a registry value is a string or an unsigned integer
  of at most 64 bits.
\<close>

record datetime =
  instant :: int  \<comment> \<open>microseconds since the epoch: what two aware datetimes compare by\<close>
  utcoffset :: int

datatype regvalue = RegStr string | RegInt "64 word"

record host =
  platform_system :: string
  platform_release :: string
  platform_version :: string
  platform_platform :: string
  platform_win32_edition :: "string option res"
  os_cpu_count :: "int option"
  psutil_cpu_count :: "int option res"
    \<comment> \<open>\<^verbatim>\<open>import psutil; psutil.cpu_count(logical=False)\<close>\<close>
  int_max_str_digits :: nat
  subprocess_run :: "string list \<Rightarrow> (int \<times> string) res"
    \<comment> \<open>the return code and the captured standard output\<close>
  open_text :: "string \<Rightarrow> file_text res"
  glob_glob :: "string \<Rightarrow> string list"
  path_exists :: "string \<Rightarrow> bool"
  os_stat_mtime :: "string \<Rightarrow> real res"
    \<comment> \<open>\<^verbatim>\<open>os.stat(path).st_mtime\<close>\<close>
  datetime_fromtimestamp :: "real \<Rightarrow> datetime res"
    \<comment> \<open>\<^verbatim>\<open>datetime.fromtimestamp(t, tz=timezone.utc).astimezone()\<close>\<close>
  os_sysconf :: "string \<Rightarrow> int res"
  winreg_import :: "unit res"
  winreg_open_key :: "string \<Rightarrow> unit res"
    \<comment> \<open>\<^verbatim>\<open>winreg.OpenKey\<close> under \<^verbatim>\<open>HKEY_LOCAL_MACHINE\<close>\<close>
  winreg_query_value :: "string \<Rightarrow> regvalue res"
    \<comment> \<open>\<^verbatim>\<open>winreg.QueryValueEx\<close> on the opened key\<close>
  global_memory_status_ex :: "(int \<times> 64 word \<times> 64 word) res"
    \<comment> \<open>the result of \<^verbatim>\<open>GlobalMemoryStatusEx\<close>, and the fields \<^verbatim>\<open>ullTotalPhys\<close> and
        \<^verbatim>\<open>ullAvailPhys\<close> it filled in\<close>

section \<open>CPU inspector\<close>

definition get_logical_cpu_count :: "host \<Rightarrow> int res" where
  "get_logical_cpu_count h =
     (case os_cpu_count h of
        Some count \<Rightarrow> if count > 0 then Inr count else Inr 1
      | None \<Rightarrow> Inr 1)"

definition get_physical_cpu_count_with_psutil :: "host \<Rightarrow> int option res" where
  "get_physical_cpu_count_with_psutil h =
     try_except
       (and_then (psutil_cpu_count h) (\<lambda>value.
          case value of
            Some n \<Rightarrow> if n > 0 then Inr (Some n) else Inr None
          | None \<Rightarrow> Inr None))
       (\<lambda>e. Inr None)"

definition powershell_cores_cmd :: "string list" where
  "powershell_cores_cmd =
     [''powershell'', ''-NoProfile'', ''-Command'',
      ''[int](Get-CimInstance Win32_Processor | Measure-Object -Property NumberOfCores -Sum).Sum'']"

definition get_physical_cpu_count_windows :: "host \<Rightarrow> int option res" where
  "get_physical_cpu_count_windows h =
     try_except
       (and_then (subprocess_run h powershell_cores_cmd) (\<lambda>(returncode, stdout).
          if returncode = 0 then
            and_then (py_int (int_max_str_digits h) (strip stdout)) (\<lambda>value.
              if value > 0 then Inr (Some value) else Inr None)
          else Inr None))
       (\<lambda>e. Inr None)"

type_synonym cpuinfo_state = "(string \<times> string) set \<times> string option \<times> string option"

definition add_pair :: "cpuinfo_state \<Rightarrow> (string \<times> string) set" where
  \<comment> \<open>\<^verbatim>\<open>if physical_id is not None and core_id is not None: pairs.add(...)\<close>\<close>
  "add_pair st =
     (case st of
        (pairs, Some physical_id, Some core_id) \<Rightarrow> insert (physical_id, core_id) pairs
      | (pairs, _, _) \<Rightarrow> pairs)"

definition cpuinfo_line :: "cpuinfo_state \<Rightarrow> string \<Rightarrow> cpuinfo_state res" where
  \<comment> \<open>the body of the first loop over \<^verbatim>\<open>/proc/cpuinfo\<close>\<close>
  "cpuinfo_line st raw_line =
     (let line = strip raw_line in
        if line = [] then Inr (add_pair st, None, None)
        else if startswith line ''physical id'' then
          and_then (py_nth (split1 CHR '':'' line) 1) (\<lambda>v.
            Inr (fst st, Some (strip v), snd (snd st)))
        else if startswith line ''core id'' then
          and_then (py_nth (split1 CHR '':'' line) 1) (\<lambda>v.
            Inr (fst st, fst (snd st), Some (strip v)))
        else Inr st)"

definition len_if_any :: "(string \<times> string) set \<Rightarrow> int option" where
  \<comment> \<open>\<^verbatim>\<open>if pairs: return len(pairs)\<close>; \<open>None\<close> when the function goes on\<close>
  "len_if_any pairs = (if pairs \<noteq> {} then Some (int (card pairs)) else None)"

definition cpuinfo_pairs :: "host \<Rightarrow> int option res" where
  \<comment> \<open>the first \<^verbatim>\<open>try\<close> of \<^verbatim>\<open>_get_physical_cpu_count_linux\<close>\<close>
  "cpuinfo_pairs h =
     try_except
       (and_then (open_text h ''/proc/cpuinfo'') (\<lambda>f.
          and_then (for_each_line cpuinfo_line f ({}, None, None)) (\<lambda>st.
            Inr (len_if_any (add_pair st)))))
       (\<lambda>e. Inr None)"

definition sysfs_core :: "host \<Rightarrow> (string \<times> string) set \<Rightarrow> string \<Rightarrow> (string \<times> string) set res" where
  "sysfs_core h pairs_sys core_path =
     (let cpu_topology_dir = dirname core_path in
        and_then (and_then (open_text h core_path) read_all) (\<lambda>core_text.
          let core_val = strip core_text;
              pkg_path = path_join cpu_topology_dir ''physical_package_id''
          in and_then
               (if path_exists h pkg_path
                then and_then (and_then (open_text h pkg_path) read_all) (\<lambda>pkg_text.
                       Inr (strip pkg_text))
                else Inr ''0'')
               (\<lambda>pkg_val. Inr (insert (pkg_val, core_val) pairs_sys))))"

definition sysfs_pairs :: "host \<Rightarrow> int option res" where
  \<comment> \<open>the second \<^verbatim>\<open>try\<close>\<close>
  "sysfs_pairs h =
     try_except
       (and_then
          (for_each (sysfs_core h)
             (glob_glob h ''/sys/devices/system/cpu/cpu[0-9]*/topology/core_id'') {})
          (\<lambda>pairs_sys. Inr (len_if_any pairs_sys)))
       (\<lambda>e. Inr None)"

fun cpu_cores_loop :: "nat \<Rightarrow> error option \<Rightarrow> string list \<Rightarrow> int option res" where
  \<comment> \<open>the loop of the third \<^verbatim>\<open>try\<close>, for the bound of \<^verbatim>\<open>int\<close> and the error that may
      end the file\<close>
  "cpu_cores_loop bound failure [] = at_end failure None"
| "cpu_cores_loop bound failure (raw_line # rest) =
     (let line = strip raw_line in
        if startswith (lower line) ''cpu cores'' then
          (let parts = split1 CHR '':'' line in
             if length parts = 2 then
               and_then (py_int bound (strip (parts ! 1))) (\<lambda>value.
                 if value > 0 then Inr (Some value) else Inr None)
             else Inr None)
        else cpu_cores_loop bound failure rest)"

definition cpu_cores_field :: "host \<Rightarrow> int option res" where
  \<comment> \<open>the third \<^verbatim>\<open>try\<close>\<close>
  "cpu_cores_field h =
     try_except
       (and_then (open_text h ''/proc/cpuinfo'') (\<lambda>f.
          cpu_cores_loop (int_max_str_digits h) (snd f) (readlines (fst f))))
       (\<lambda>e. Inr None)"

definition get_physical_cpu_count_linux :: "host \<Rightarrow> int option res" where
  "get_physical_cpu_count_linux h =
     and_then (cpuinfo_pairs h) (\<lambda>r1.
       case r1 of
         Some n \<Rightarrow> Inr (Some n)
       | None \<Rightarrow>
           and_then (sysfs_pairs h) (\<lambda>r2.
             case r2 of
               Some n \<Rightarrow> Inr (Some n)
             | None \<Rightarrow> cpu_cores_field h))"

definition positive :: "int option \<Rightarrow> int option" where
  \<comment> \<open>\<^verbatim>\<open>isinstance(value, int) and value > 0\<close>\<close>
  "positive value = (case value of Some n \<Rightarrow> if n > 0 then Some n else None | None \<Rightarrow> None)"

definition platform_cpu_count :: "host \<Rightarrow> int option res" where
  \<comment> \<open>the branch on \<^verbatim>\<open>platform.system()\<close> in \<^verbatim>\<open>get_physical_cpu_count\<close>\<close>
  "platform_cpu_count h =
     (let system = platform_system h in
        if system = ''Windows'' then get_physical_cpu_count_windows h
        else if system = ''Linux'' then get_physical_cpu_count_linux h
        else Inr None)"

definition get_physical_cpu_count :: "host \<Rightarrow> int res" where
  "get_physical_cpu_count h =
     and_then (get_physical_cpu_count_with_psutil h) (\<lambda>value.
       case positive value of
         Some n \<Rightarrow> Inr n
       | None \<Rightarrow>
           and_then (platform_cpu_count h) (\<lambda>value.
             case positive value of
               Some n \<Rightarrow> Inr n
             | None \<Rightarrow> get_logical_cpu_count h))"

section \<open>OS identity inspector\<close>

definition reg_path :: string where
  "reg_path = ''SOFTWARE'' @ [CHR 0x5C] @ ''Microsoft'' @ [CHR 0x5C] @ ''Windows NT''
     @ [CHR 0x5C] @ ''CurrentVersion''"

definition str_of_reg :: "regvalue \<Rightarrow> string" where
  \<comment> \<open>how an f-string and \<^verbatim>\<open>str\<close> print a registry value\<close>
  "str_of_reg v = (case v of RegStr t \<Rightarrow> t | RegInt n \<Rightarrow> str_of_int (uint n))"

definition int_of_reg :: "nat \<Rightarrow> regvalue \<Rightarrow> int res" where
  \<comment> \<open>\<^verbatim>\<open>int(value)\<close>\<close>
  "int_of_reg bound v = (case v of RegStr t \<Rightarrow> py_int bound t | RegInt n \<Rightarrow> Inr (uint n))"

definition get_windows_build_number :: "host \<Rightarrow> string option res" where
  "get_windows_build_number h =
     try_except
       (and_then (winreg_import h) (\<lambda>u.
        and_then (winreg_open_key h reg_path) (\<lambda>key.
        and_then (winreg_query_value h ''CurrentBuild'') (\<lambda>current_build.
          try_except
            (and_then (winreg_query_value h ''UBR'') (\<lambda>ubr.
               Inr (Some (str_of_reg current_build @ ''.'' @ str_of_reg ubr))))
            (\<lambda>e. if e = FileNotFoundError then Inr (Some (str_of_reg current_build))
                  else Inl e)))))
       (\<lambda>e. Inr None)"

definition strip_quotes :: "string \<Rightarrow> string" where
  \<comment> \<open>\<^verbatim>\<open>s.strip('"')\<close>\<close>
  "strip_quotes t =
     rev (dropWhile (\<lambda>c. c = CHR 0x22) (rev (dropWhile (\<lambda>c. c = CHR 0x22) t)))"

fun pretty_name_loop :: "error option \<Rightarrow> string list \<Rightarrow> string option res" where
  "pretty_name_loop failure [] = at_end failure None"
| "pretty_name_loop failure (line # rest) =
     (if startswith line ''PRETTY_NAME='' then
        and_then (py_nth (split1 CHR ''='' line) 1) (\<lambda>v. Inr (Some (strip_quotes (strip v))))
      else pretty_name_loop failure rest)"

definition truthy :: "string option \<Rightarrow> bool" where
  \<comment> \<open>\<^verbatim>\<open>if s:\<close> for a string or \<^verbatim>\<open>None\<close>\<close>
  "truthy v \<longleftrightarrow> (case v of Some t \<Rightarrow> t \<noteq> [] | None \<Rightarrow> False)"

definition get_os_name :: "host \<Rightarrow> string res" where
  "get_os_name h =
     (let system = platform_system h in
        if system = ''Windows'' then
          and_then (try_except (platform_win32_edition h) (\<lambda>e. Inr (Some []))) (\<lambda>edition.
          let release = platform_release h in
          and_then (get_windows_build_number h) (\<lambda>build_number.
          let version = (case build_number of
                           Some b \<Rightarrow> if b \<noteq> [] then b else platform_version h
                         | None \<Rightarrow> platform_version h);
              edition_str = (case edition of
                               Some ed \<Rightarrow> if ed \<noteq> [] then '' '' @ ed else []
                             | None \<Rightarrow> [])
          in Inr (''Windows '' @ release @ edition_str @ '' (build '' @ version @ '')'')))
        else if system = ''Linux'' then
          and_then
            (try_except
               (and_then (open_text h ''/etc/os-release'') (\<lambda>f.
                and_then (pretty_name_loop (snd f) (readlines (fst f))) (\<lambda>pretty.
                  if truthy pretty then Inr pretty else Inr None)))
               (\<lambda>e. Inr None))
            (\<lambda>pretty. case pretty of Some name \<Rightarrow> Inr name | None \<Rightarrow> Inr (platform_platform h))
        else Inr (platform_platform h))"

definition get_windows_install_datetime :: "host \<Rightarrow> datetime option res" where
  "get_windows_install_datetime h =
     try_except
       (and_then (winreg_import h) (\<lambda>u.
        and_then (winreg_open_key h reg_path) (\<lambda>key.
        and_then (winreg_query_value h ''InstallDate'') (\<lambda>value.
        and_then (int_of_reg (int_max_str_digits h) value) (\<lambda>seconds.
        and_then (datetime_fromtimestamp h (of_int seconds)) (\<lambda>dt. Inr (Some dt)))))))
       (\<lambda>e. Inr None)"

definition candidate_paths :: "string list" where
  "candidate_paths =
     [''/var/log/installer/syslog'', ''/var/log/anaconda/anaconda.log'',
      ''/var/log/installer'', ''/etc'']"

definition path_timestamp :: "host \<Rightarrow> string \<Rightarrow> datetime res" where
  \<comment> \<open>the two statements of the \<^verbatim>\<open>try\<close> in the loop before the \<^verbatim>\<open>append\<close>\<close>
  "path_timestamp h path = and_then (os_stat_mtime h path) (\<lambda>t. datetime_fromtimestamp h t)"

definition collect_timestamps :: "host \<Rightarrow> string list \<Rightarrow> datetime list" where
  \<comment> \<open>the loop over the paths: a path whose \<^verbatim>\<open>try\<close> raises adds nothing\<close>
  "collect_timestamps h paths =
     fold (\<lambda>path timestamps.
             case path_timestamp h path of
               Inr ts \<Rightarrow> timestamps @ [ts]
             | Inl e \<Rightarrow> timestamps) paths []"

definition py_min :: "datetime \<Rightarrow> datetime list \<Rightarrow> datetime" where
  \<comment> \<open>\<^verbatim>\<open>min\<close> of a list that is not empty: a later item replaces the one held only
      when it is smaller\<close>
  "py_min x xs = fold (\<lambda>y m. if instant y < instant m then y else m) xs x"

definition get_linux_install_datetime :: "host \<Rightarrow> datetime option res" where
  "get_linux_install_datetime h =
     (case collect_timestamps h candidate_paths of
        [] \<Rightarrow> Inr None
      | ts # rest \<Rightarrow> Inr (Some (py_min ts rest)))"

definition get_os_install_datetime :: "host \<Rightarrow> datetime option res" where
  "get_os_install_datetime h =
     (let system = platform_system h in
        if system = ''Windows'' then get_windows_install_datetime h
        else if system = ''Linux'' then get_linux_install_datetime h
        else Inr None)"

section \<open>Memory inspector\<close>

definition global_memory_status :: "host \<Rightarrow> (64 word \<times> 64 word) res" where
  \<comment> \<open>the call both Windows functions make, and their \<^verbatim>\<open>raise OSError\<close>\<close>
  "global_memory_status h =
     and_then (global_memory_status_ex h) (\<lambda>(result, total_phys, avail_phys).
       if result = 0 then Inl (OSError ''GlobalMemoryStatusEx failed'')
       else Inr (total_phys, avail_phys))"

definition get_total_ram_bytes_windows :: "host \<Rightarrow> int res" where
  "get_total_ram_bytes_windows h =
     and_then (global_memory_status h) (\<lambda>(total_phys, avail_phys). Inr (uint total_phys))"

definition get_free_ram_bytes_windows :: "host \<Rightarrow> int res" where
  "get_free_ram_bytes_windows h =
     and_then (global_memory_status h) (\<lambda>(total_phys, avail_phys). Inr (uint avail_phys))"

definition to_bytes :: "int \<Rightarrow> string \<Rightarrow> int" where
  \<comment> \<open>the chain of tests on \<^verbatim>\<open>unit\<close>; the script writes it out for each of the three
      fields it reads\<close>
  "to_bytes v unit =
     (if unit = ''kb'' then v * 1024
      else if unit = ''mb'' then v * 1024 * 1024
      else if unit = ''gb'' then v * 1024 * 1024 * 1024
      else v * 1024)"

definition meminfo_bytes :: "nat \<Rightarrow> string list \<Rightarrow> int res" where
  \<comment> \<open>the value of a line split into at least three parts, in bytes\<close>
  "meminfo_bytes bound parts =
     and_then (py_nth parts 1) (\<lambda>p1.
     and_then (py_int bound p1) (\<lambda>v.
     and_then (py_nth parts 2) (\<lambda>p2. Inr (to_bytes v (lower p2)))))"

fun memtotal_loop :: "nat \<Rightarrow> error option \<Rightarrow> string list \<Rightarrow> int option res" where
  \<comment> \<open>\<open>Some\<close> for the \<^verbatim>\<open>return\<close> in the loop, \<open>None\<close> when the loop ends or breaks\<close>
  "memtotal_loop bound failure [] = at_end failure None"
| "memtotal_loop bound failure (line # rest) =
     (if startswith line ''MemTotal:'' then
        (let parts = py_split line in
           if length parts \<ge> 3 then and_then (meminfo_bytes bound parts) (\<lambda>v. Inr (Some v))
           else Inr None)
      else memtotal_loop bound failure rest)"

definition sysconf_pages :: "host \<Rightarrow> string \<Rightarrow> int res" where
  \<comment> \<open>the page size times a page count, both from \<^verbatim>\<open>os.sysconf\<close>\<close>
  "sysconf_pages h name =
     and_then (os_sysconf h ''SC_PAGE_SIZE'') (\<lambda>page_size.
     and_then (os_sysconf h name) (\<lambda>pages. Inr (page_size * pages)))"

definition linux_fallback :: "host \<Rightarrow> string \<Rightarrow> string \<Rightarrow> int res" where
  \<comment> \<open>the second \<^verbatim>\<open>try\<close> of the two Linux functions\<close>
  "linux_fallback h name message =
     try_except (sysconf_pages h name)
       (\<lambda>exc. if is_ValueError exc \<or> is_OSError exc \<or> exc = AttributeError
               then Inl (RuntimeError message) else Inl exc)"

definition get_total_ram_bytes_linux :: "host \<Rightarrow> int res" where
  "get_total_ram_bytes_linux h =
     and_then
       (try_except
          (and_then (open_text h ''/proc/meminfo'') (\<lambda>f.
             memtotal_loop (int_max_str_digits h) (snd f) (readlines (fst f))))
          (\<lambda>e. if e = FileNotFoundError then Inr None else Inl e))
       (\<lambda>found.
          case found of
            Some v \<Rightarrow> Inr v
          | None \<Rightarrow> linux_fallback h ''SC_PHYS_PAGES'' ''Unable to determine total RAM on Linux'')"

fun memfree_loop :: "nat \<Rightarrow> error option \<Rightarrow> string list \<Rightarrow> int option \<Rightarrow> int option
    \<Rightarrow> (int option \<times> int option) res" where
  \<comment> \<open>the loop over \<^verbatim>\<open>available_value\<close> and \<^verbatim>\<open>free_value\<close>\<close>
  "memfree_loop bound failure [] available_value free_value =
     at_end failure (available_value, free_value)"
| "memfree_loop bound failure (line # rest) available_value free_value =
     (if startswith line ''MemAvailable:'' then
        (let parts = py_split line in
           if length parts \<ge> 3 then
             and_then (meminfo_bytes bound parts) (\<lambda>v. Inr (Some v, free_value))
           else memfree_loop bound failure rest available_value free_value)
      else if startswith line ''MemFree:'' then
        (let parts = py_split line in
           if length parts \<ge> 3 then
             and_then (meminfo_bytes bound parts) (\<lambda>v.
               memfree_loop bound failure rest available_value (Some v))
           else memfree_loop bound failure rest available_value free_value)
      else memfree_loop bound failure rest available_value free_value)"

definition get_free_ram_bytes_linux :: "host \<Rightarrow> int res" where
  "get_free_ram_bytes_linux h =
     and_then
       (try_except
          (and_then (open_text h ''/proc/meminfo'') (\<lambda>f.
           and_then (memfree_loop (int_max_str_digits h) (snd f) (readlines (fst f)) None None)
             (\<lambda>(available_value, free_value).
             case available_value of
               Some v \<Rightarrow> Inr (Some v)
             | None \<Rightarrow> Inr free_value)))
          (\<lambda>e. if e = FileNotFoundError then Inr None else Inl e))
       (\<lambda>found.
          case found of
            Some v \<Rightarrow> Inr v
          | None \<Rightarrow> linux_fallback h ''SC_AVPHYS_PAGES'' ''Unable to determine free RAM on Linux'')"

definition other_os_pages :: "host \<Rightarrow> string \<Rightarrow> int res" where
  \<comment> \<open>the \<^verbatim>\<open>try\<close> at the end of \<^verbatim>\<open>get_total_ram_bytes\<close> and \<^verbatim>\<open>get_free_ram_bytes\<close>\<close>
  "other_os_pages h name =
     try_except (sysconf_pages h name)
       (\<lambda>exc. Inl (NotImplementedError (''Unsupported OS: '' @ platform_system h)))"

definition get_total_ram_bytes :: "host \<Rightarrow> int res" where
  "get_total_ram_bytes h =
     (let system = platform_system h in
        if system = ''Windows'' then get_total_ram_bytes_windows h
        else if system = ''Linux'' then get_total_ram_bytes_linux h
        else other_os_pages h ''SC_PHYS_PAGES'')"

definition get_free_ram_bytes :: "host \<Rightarrow> int res" where
  "get_free_ram_bytes h =
     (let system = platform_system h in
        if system = ''Windows'' then get_free_ram_bytes_windows h
        else if system = ''Linux'' then get_free_ram_bytes_linux h
        else other_os_pages h ''SC_AVPHYS_PAGES'')"

section \<open>GPU inspector\<close>

fun unique_loop :: "string list \<Rightarrow> string set \<Rightarrow> string list \<Rightarrow> string list" where
  "unique_loop [] seen result = result"
| "unique_loop (item # items) seen result =
     (let v = strip item in
        if v = [] then unique_loop items seen result
        else if v \<notin> seen then unique_loop items (insert v seen) (result @ [v])
        else unique_loop items seen result)"

definition unique_ordered :: "string list \<Rightarrow> string list" where
  "unique_ordered items = unique_loop items {} []"

definition run_ok :: "host \<Rightarrow> string list \<Rightarrow> string res" where
  \<comment> \<open>\<^verbatim>\<open>subprocess.run\<close> and the test \<^verbatim>\<open>result.returncode == 0 and result.stdout\<close>:
      the output to read, or the empty text when the test fails\<close>
  "run_ok h cmd =
     and_then (subprocess_run h cmd) (\<lambda>(returncode, stdout).
       if returncode = 0 \<and> stdout \<noteq> [] then Inr stdout else Inr [])"

definition powershell_gpu_cmd :: "string list" where
  "powershell_gpu_cmd =
     [''powershell'', ''-NoProfile'', ''-Command'',
      ''Get-CimInstance Win32_VideoController | Select-Object -ExpandProperty Name'']"

definition wmic_gpu_cmd :: "string list" where
  "wmic_gpu_cmd = [''wmic'', ''path'', ''Win32_VideoController'', ''get'', ''Name'', ''/value'']"

definition powershell_line :: "string list \<Rightarrow> string \<Rightarrow> string list res" where
  "powershell_line names line =
     (let v = strip line in if v \<noteq> [] then Inr (names @ [v]) else Inr names)"

definition wmic_line :: "string list \<Rightarrow> string \<Rightarrow> string list res" where
  "wmic_line names line =
     (if startswith line ''Name='' then
        and_then (py_nth (split1 CHR ''='' line) 1) (\<lambda>t.
          let v = strip t in if v \<noteq> [] then Inr (names @ [v]) else Inr names)
      else Inr names)"

definition run_into :: "host \<Rightarrow> string list \<Rightarrow> (string list \<Rightarrow> string \<Rightarrow> string list res)
    \<Rightarrow> string list \<Rightarrow> string list" where
  \<comment> \<open>\<^verbatim>\<open>try: result = subprocess.run(cmd, ...); if ...: for line in
      result.stdout.splitlines(): ... except Exception: pass\<close>, as the value of
      \<^verbatim>\<open>names\<close> after it\<close>
  "run_into h cmd body names =
     (case run_ok h cmd of
        Inl e \<Rightarrow> names
      | Inr stdout \<Rightarrow> fst (for_each_keep body (splitlines stdout) names))"

definition windows_gpu_candidates :: "host \<Rightarrow> string list" where
  \<comment> \<open>\<^verbatim>\<open>names\<close> at the \<^verbatim>\<open>return\<close> of \<^verbatim>\<open>_get_gpu_names_windows\<close>\<close>
  "windows_gpu_candidates h =
     (let names = run_into h powershell_gpu_cmd powershell_line [] in
        if names = [] then run_into h wmic_gpu_cmd wmic_line names else names)"

definition get_gpu_names_windows :: "host \<Rightarrow> string list res" where
  "get_gpu_names_windows h = Inr (unique_ordered (windows_gpu_candidates h))"

definition quoted :: "string \<Rightarrow> string" where
  "quoted t = CHR 0x22 # t @ [CHR 0x22]"

definition lspci_line :: "string list \<Rightarrow> string \<Rightarrow> string list res" where
  "lspci_line names raw_line =
     (let line = strip raw_line in
        if line = [] then Inr names
        else if contains (quoted ''VGA compatible controller'') line
                \<or> contains (quoted ''3D controller'') line
                \<or> contains (quoted ''Display controller'') line then
          (let fields = findall_quoted line in
             if length fields \<ge> 3 then
               (let vendor = fields ! 1; device = fields ! 2
                in Inr (names @ [vendor @ '' '' @ device]))
             else Inr names)
        else Inr names)"

fun nvidia_model_loop :: "error option \<Rightarrow> string list \<Rightarrow> string list \<Rightarrow> string list res" where
  "nvidia_model_loop failure [] names = at_end failure names"
| "nvidia_model_loop failure (rline # rest) names =
     (if startswith rline ''Model:'' then
        and_then (py_nth (split1 CHR '':'' rline) 1) (\<lambda>t.
          let v = strip t in if v \<noteq> [] then Inr (names @ [''NVIDIA '' @ v]) else Inr names)
      else nvidia_model_loop failure rest names)"

definition nvidia_file :: "host \<Rightarrow> string \<Rightarrow> string list \<Rightarrow> string list" where
  \<comment> \<open>one round of the loop over the information files; its \<^verbatim>\<open>try\<close> appends last,
      so a round that raises leaves \<^verbatim>\<open>names\<close> as it was\<close>
  "nvidia_file h info_path names =
     (case and_then (open_text h info_path) (\<lambda>f.
             nvidia_model_loop (snd f) (readlines (fst f)) names) of
        Inl e \<Rightarrow> names
      | Inr names' \<Rightarrow> names')"

definition vendor_map :: "(string \<times> string) list" where
  "vendor_map =
     [(''0x10de'', ''NVIDIA''), (''10de'', ''NVIDIA''),
      (''0x1002'', ''AMD/ATI''), (''1002'', ''AMD/ATI''),
      (''0x8086'', ''Intel''), (''8086'', ''Intel''),
      (''0x1a03'', ''ASPEED''), (''1a03'', ''ASPEED'')]"

definition uevent_line :: "string option \<times> string option \<Rightarrow> string
    \<Rightarrow> (string option \<times> string option) res" where
  \<comment> \<open>the loop over a \<^verbatim>\<open>uevent\<close> file, on the pair of \<^verbatim>\<open>driver\<close> and \<^verbatim>\<open>pci_id\<close>\<close>
  "uevent_line st rline =
     (if startswith rline ''DRIVER='' then
        and_then (py_nth (split1 CHR ''='' rline) 1) (\<lambda>t. Inr (Some (strip t), snd st))
      else if startswith rline ''PCI_ID='' then
        and_then (py_nth (split1 CHR ''='' rline) 1) (\<lambda>t. Inr (fst st, Some (strip t)))
      else Inr st)"

definition drm_name :: "string option \<times> string option \<Rightarrow> string list \<Rightarrow> string list" where
  \<comment> \<open>\<^verbatim>\<open>if pci_id: ...\<close> after the loop over the file\<close>
  "drm_name st names =
     (case st of (driver, pci_id) \<Rightarrow>
        case pci_id of
          None \<Rightarrow> names
        | Some pci \<Rightarrow>
            if pci = [] then names
            else
              (let vendor_hex = split_first CHR '':'' pci in
                 case map_of vendor_map (lower vendor_hex) of
                   None \<Rightarrow> names
                 | Some vendor_name \<Rightarrow>
                     if vendor_name = [] then names
                     else
                       (case driver of
                          None \<Rightarrow> names @ [vendor_name @ '' GPU'']
                        | Some d \<Rightarrow>
                            if d = [] then names @ [vendor_name @ '' GPU'']
                            else names @ [vendor_name @ '' ('' @ d @ '')''])))"

definition drm_card :: "host \<Rightarrow> string \<Rightarrow> string list \<Rightarrow> string list" where
  \<comment> \<open>one round of the loop over the card directories\<close>
  "drm_card h card_path names =
     (let uevent = path_join (path_join card_path ''device'') ''uevent'' in
        if \<not> path_exists h uevent then names
        else
          (case and_then (open_text h uevent) (\<lambda>f.
                  for_each_line uevent_line f (None, None)) of
             Inl e \<Rightarrow> names
           | Inr st \<Rightarrow> drm_name st names))"

definition linux_gpu_candidates :: "host \<Rightarrow> string list" where
  \<comment> \<open>\<^verbatim>\<open>names\<close> at the \<^verbatim>\<open>return\<close> of \<^verbatim>\<open>_get_gpu_names_linux\<close>\<close>
  "linux_gpu_candidates h =
     (let names1 = run_into h [''lspci'', ''-mm'', ''-nn''] lspci_line [];
          names2 = (if names1 = [] then
                      fold (nvidia_file h) (glob_glob h ''/proc/driver/nvidia/gpus/*/information'')
                        names1
                    else names1);
          names3 = (if names2 = [] then
                      fold (drm_card h) (glob_glob h ''/sys/class/drm/card[0-9]*'') names2
                    else names2)
      in names3)"

definition get_gpu_names_linux :: "host \<Rightarrow> string list res" where
  "get_gpu_names_linux h = Inr (unique_ordered (linux_gpu_candidates h))"

definition gpu_candidates :: "host \<Rightarrow> string list" where
  \<comment> \<open>the names a fallback step gathered, before \<^verbatim>\<open>_unique_ordered\<close>; none on another
      system\<close>
  "gpu_candidates h =
     (let system = platform_system h in
        if system = ''Windows'' then windows_gpu_candidates h
        else if system = ''Linux'' then linux_gpu_candidates h
        else [])"

definition get_gpu_names :: "host \<Rightarrow> string list res" where
  "get_gpu_names h =
     (let system = platform_system h in
        if system = ''Windows'' then get_gpu_names_windows h
        else if system = ''Linux'' then get_gpu_names_linux h
        else Inr [])"

section \<open>Table renderer\<close>

text \<open>
  \<^verbatim>\<open>table_lines(rows, header)\<close>. The header is a pair or \<^verbatim>\<open>None\<close>; the two widths and
  the local function \<^verbatim>\<open>sep\<close> are definitions of their own.
\<close>

type_synonym row = "string \<times> string"

definition col1_width :: "row list \<Rightarrow> row option \<Rightarrow> nat" where
  "col1_width rows header =
     py_max (case header of Some h \<Rightarrow> length (fst h) | None \<Rightarrow> 0) (map (\<lambda>(k, v). length k) rows)"

definition col2_width :: "row list \<Rightarrow> row option \<Rightarrow> nat" where
  "col2_width rows header =
     py_max (case header of Some h \<Rightarrow> length (snd h) | None \<Rightarrow> 0) (map (\<lambda>(k, v). length v) rows)"

definition sep :: "nat \<Rightarrow> nat \<Rightarrow> string \<Rightarrow> string" where
  "sep w1 w2 ch = ''+-'' @ str_mul ch w1 @ ''-+-'' @ str_mul ch w2 @ ''-+''"

definition cells_line :: "nat \<Rightarrow> nat \<Rightarrow> row \<Rightarrow> string" where
  \<comment> \<open>the f-string of a header or data line\<close>
  "cells_line w1 w2 r = ''| '' @ ljust w1 (fst r) @ '' | '' @ ljust w2 (snd r) @ '' |''"

definition table_lines :: "row list \<Rightarrow> row option \<Rightarrow> string list" where
  "table_lines rows header =
     (let w1 = col1_width rows header; w2 = col2_width rows header in
        [sep w1 w2 ''-'']
        @ (case header of
             Some h \<Rightarrow> [cells_line w1 w2 h, sep w1 w2 ''='']
           | None \<Rightarrow> [])
        @ map (cells_line w1 w2) rows
        @ [sep w1 w2 ''-''])"

definition default_header :: "row option" where
  "default_header = Some (''Property'', ''Value'')"

definition scenario_rows :: "row list" where
  \<comment> \<open>the rows of the specification's end-to-end scenario\<close>
  "scenario_rows =
     [(''Operating system'', ''Test OS''), (''Physical cores'', ''4''), (''Logical cores'', ''8'')]"

subsection \<open>Reading a rendered table back\<close>

text \<open>
  The script only renders. The round-trip property of the specification reads a rendered
  table back, by the fixed widths of its columns and with the padding trimmed; the
  definitions below are that reading, in the words of the specification.
\<close>

definition data_lines :: "bool \<Rightarrow> string list \<Rightarrow> string list" where
  \<comment> \<open>the data lines of a rendered table: what is left without the top border, the
      header line and its rule (when there is a header) and the bottom border\<close>
  "data_lines has_header ls = butlast (drop (if has_header then 3 else 1) ls)"

definition trim_padding :: "string \<Rightarrow> string" where
  \<comment> \<open>a cell without its padding: \<^verbatim>\<open>ljust\<close> pads with spaces on the right, so the spaces
      at the end go and nothing else (\<^verbatim>\<open>cell.rstrip(' ')\<close>)\<close>
  "trim_padding cell = rev (dropWhile (\<lambda>c. c = CHR '' '') (rev cell))"

definition ends_with_space :: "string \<Rightarrow> bool" where
  "ends_with_space t \<longleftrightarrow> t \<noteq> [] \<and> last t = CHR '' ''"

definition parse_data_line :: "nat \<Rightarrow> nat \<Rightarrow> string \<Rightarrow> row" where
  \<comment> \<open>a data line of a table with column widths \<open>w1\<close> and \<open>w2\<close> is cut at the fixed
      positions of its \<open>|\<close> separators (the first cell after \<open>| \<close>, the second after
      the \<open> | \<close> that follows it) and the padding of each cell is trimmed\<close>
  "parse_data_line w1 w2 line =
     (trim_padding (take w1 (drop 2 line)), trim_padding (take w2 (drop (w1 + 5) line)))"

definition parse_table :: "bool \<Rightarrow> string list \<Rightarrow> row list" where
  \<comment> \<open>the column widths are read off the top border: the first run of \<open>-\<close> is two
      longer than the first column, and the whole line is seven longer than both
      columns\<close>
  "parse_table has_header ls =
     (case ls of
        [] \<Rightarrow> []
      | border # rest \<Rightarrow>
          (let w1 = length (takeWhile (\<lambda>c. c \<noteq> CHR ''+'') (drop 1 border)) - 2;
               w2 = length border - w1 - 7
           in map (parse_data_line w1 w2) (data_lines has_header ls)))"

section \<open>Hosts and tables to state the properties on\<close>

definition bare_host :: host where
  \<comment> \<open>a host of some other system on which nothing is there: no file, no registry, no
      tool, no \<^verbatim>\<open>sysconf\<close>\<close>
  "bare_host =
     \<lparr> platform_system = ''Other'', platform_release = [], platform_version = [],
       platform_platform = ''Other-1.0'', platform_win32_edition = Inr None,
       os_cpu_count = None, psutil_cpu_count = Inl ImportError, int_max_str_digits = 4300,
       subprocess_run = (\<lambda>cmd. Inl FileNotFoundError),
       open_text = (\<lambda>path. Inl FileNotFoundError),
       glob_glob = (\<lambda>pattern. []), path_exists = (\<lambda>path. False),
       os_stat_mtime = (\<lambda>path. Inl FileNotFoundError),
       datetime_fromtimestamp = (\<lambda>t. Inl OverflowError),
       os_sysconf = (\<lambda>name. Inl ValueError),
       winreg_import = Inl ImportError,
       winreg_open_key = (\<lambda>path. Inl FileNotFoundError),
       winreg_query_value = (\<lambda>name. Inl FileNotFoundError),
       global_memory_status_ex = Inl AttributeError \<rparr>"

definition linux_host :: "(string \<times> string) list \<Rightarrow> host" where
  \<comment> \<open>a Linux host with the given files, which read without an error, and nothing
      else\<close>
  "linux_host files =
     bare_host \<lparr> platform_system := ''Linux'',
       open_text := (\<lambda>path. case map_of files path of
                               Some text \<Rightarrow> Inr (text, None)
                             | None \<Rightarrow> Inl FileNotFoundError) \<rparr>"

definition dated_host :: host where
  \<comment> \<open>a Linux host on which two of the candidate paths exist\<close>
  "dated_host =
     bare_host \<lparr> platform_system := ''Linux'',
       os_stat_mtime := (\<lambda>path. if path = ''/etc'' then Inr 200
                                else if path = ''/var/log/installer'' then Inr 100
                                else Inl FileNotFoundError),
       datetime_fromtimestamp := (\<lambda>t. Inr \<lparr> instant = \<lfloor>t\<rfloor>, utcoffset = 0 \<rparr>) \<rparr>"

definition first_index :: "'a list \<Rightarrow> 'a \<Rightarrow> nat" where
  \<comment> \<open>where \<open>a\<close> is first seen in \<open>xs\<close>\<close>
  "first_index xs a = length (takeWhile (\<lambda>x. x \<noteq> a) xs)"

subsection \<open>The processor table\<close>

text \<open>
  The words of the specification for \<^verbatim>\<open>/proc/cpuinfo\<close>: the table is made of processor
  blocks, the runs of lines between blank lines; a field is a line that begins with its
  key and gives its value after a colon; a block yields the pair of the values of its
  \<open>physical id\<close> and \<open>core id\<close> fields.
\<close>

fun blocks_acc :: "string list \<Rightarrow> string list \<Rightarrow> string list list" where
  "blocks_acc cur [] = (if cur = [] then [] else [cur])"
| "blocks_acc cur (l # ls) =
     (if l = [] then (if cur = [] then [] else [cur]) @ blocks_acc [] ls
      else blocks_acc (cur @ [l]) ls)"

definition cpuinfo_blocks :: "string \<Rightarrow> string list list" where
  \<comment> \<open>the processor blocks of a text, each line without the white space around it\<close>
  "cpuinfo_blocks text = blocks_acc [] (map strip (readlines text))"

definition field_value :: "string \<Rightarrow> string list \<Rightarrow> string option" where
  \<comment> \<open>the value of the field \<open>key\<close> of a block: what follows the first colon of the
      line that begins with the key (the last such line when there are several)\<close>
  "field_value key block =
     (let fs = filter (\<lambda>l. startswith l key) block in
        if fs = [] then None
        else Some (strip (drop 1 (dropWhile (\<lambda>c. c \<noteq> CHR '':'') (last fs)))))"

definition block_pair :: "string list \<Rightarrow> string option \<times> string option" where
  "block_pair block = (field_value ''physical id'' block, field_value ''core id'' block)"

definition has_both_ids :: "string list \<Rightarrow> bool" where
  "has_both_ids block \<longleftrightarrow>
     field_value ''physical id'' block \<noteq> None \<and> field_value ''core id'' block \<noteq> None"

definition id_lines_have_colon :: "string list \<Rightarrow> bool" where
  \<comment> \<open>every line that begins with one of the two keys is a field\<close>
  "id_lines_have_colon block \<longleftrightarrow>
     list_all (\<lambda>l. startswith l ''physical id'' \<or> startswith l ''core id''
                    \<longrightarrow> CHR '':'' \<in> set l) block"

definition two_core_cpuinfo :: string where
  \<comment> \<open>a table of three processors on two cores\<close>
  "two_core_cpuinfo =
     ''processor : 0'' @ [CHR 0x0A] @ ''physical id : 0'' @ [CHR 0x0A] @ ''core id : 0''
       @ [CHR 0x0A] @ [CHR 0x0A]
     @ ''processor : 1'' @ [CHR 0x0A] @ ''physical id : 0'' @ [CHR 0x0A] @ ''core id : 1''
       @ [CHR 0x0A] @ [CHR 0x0A]
     @ ''processor : 2'' @ [CHR 0x0A] @ ''physical id : 0'' @ [CHR 0x0A] @ ''core id : 0''
       @ [CHR 0x0A] @ [CHR 0x0A]"

subsection \<open>The memory table\<close>




section \<open>Properties of the table renderer\<close>

lemma py_max_Max: "py_max x xs = Max (set (x # xs))"
  by (simp only: py_max_def Max.set_eq_fold)

lemma length_str_mul: "length (str_mul s n) = n * length s"
  by (induction n) (simp_all add: str_mul_def)

lemma length_ljust: "length s \<le> w \<Longrightarrow> length (ljust w s) = w"
  by (simp add: ljust_def)

lemma length_sep: "length (sep w1 w2 [c]) = w1 + w2 + 7"
  by (simp add: sep_def length_str_mul)

lemma length_cells_line:
  "length (fst r) \<le> w1 \<Longrightarrow> length (snd r) \<le> w2 \<Longrightarrow> length (cells_line w1 w2 r) = w1 + w2 + 7"
  by (simp add: cells_line_def length_ljust)

lemma col1_width_row: "r \<in> set rows \<Longrightarrow> length (fst r) \<le> col1_width rows header"
  by (cases r) (force simp: col1_width_def py_max_Max intro!: Max_ge)

lemma col2_width_row: "r \<in> set rows \<Longrightarrow> length (snd r) \<le> col2_width rows header"
  by (cases r) (force simp: col2_width_def py_max_Max intro!: Max_ge)

lemma col1_width_header: "length (fst h) \<le> col1_width rows (Some h)"
  by (simp add: col1_width_def py_max_Max)

lemma col2_width_header: "length (snd h) \<le> col2_width rows (Some h)"
  by (simp add: col2_width_def py_max_Max)

text \<open>
  Claim C10. Whatever the rows and the header (no rows and no header included), every
  line \<^verbatim>\<open>table_lines\<close> returns has the same length: the two column widths plus 7. Each
  width is the largest length among the header cell of that column (0 stands in when
  there is no header) and the cells of the rows.
\<close>

theorem table_lines_same_length:
  "(\<forall>l \<in> set (table_lines rows header).
      length l = col1_width rows header + col2_width rows header + 7)
   \<and> col1_width rows header
       = Max (set ((case header of Some h \<Rightarrow> length (fst h) | None \<Rightarrow> 0) # map (length \<circ> fst) rows))
   \<and> col2_width rows header
       = Max (set ((case header of Some h \<Rightarrow> length (snd h) | None \<Rightarrow> 0) # map (length \<circ> snd) rows))"
proof (intro conjI ballI)
  fix l assume "l \<in> set (table_lines rows header)"
  then consider "l = sep (col1_width rows header) (col2_width rows header) ''-''"
    | h where "header = Some h" "l = cells_line (col1_width rows header) (col2_width rows header) h"
    | "l = sep (col1_width rows header) (col2_width rows header) ''=''"
    | r where "r \<in> set rows" "l = cells_line (col1_width rows header) (col2_width rows header) r"
    by (auto simp: table_lines_def Let_def split: option.splits)
  then show "length l = col1_width rows header + col2_width rows header + 7"
  proof cases
    case 1 then show ?thesis by (simp add: length_sep)
  next
    case 2 then show ?thesis
      by (simp add: length_cells_line col1_width_header col2_width_header)
  next
    case 3 then show ?thesis by (simp add: length_sep)
  next
    case 4 then show ?thesis
      by (simp add: length_cells_line col1_width_row col2_width_row)
  qed
next
  have "map (\<lambda>(k, v). length k) rows = map (length \<circ> fst) rows" by (simp add: case_prod_unfold comp_def)
  then show "col1_width rows header
       = Max (set ((case header of Some h \<Rightarrow> length (fst h) | None \<Rightarrow> 0) # map (length \<circ> fst) rows))"
    by (simp only: col1_width_def py_max_Max)
next
  have "map (\<lambda>(k, v). length v) rows = map (length \<circ> snd) rows" by (simp add: case_prod_unfold comp_def)
  then show "col2_width rows header
       = Max (set ((case header of Some h \<Rightarrow> length (snd h) | None \<Rightarrow> 0) # map (length \<circ> snd) rows))"
    by (simp only: col2_width_def py_max_Max)
qed

theorem table_lines_same_length_witness:
  "''| a | bc |'' \<in> set (table_lines [(''a'', ''bc'')] None)
   \<and> length ''| a | bc |''
       = col1_width [(''a'', ''bc'')] None + col2_width [(''a'', ''bc'')] None + 7"
proof -
  have "''| a | bc |'' \<in> set (table_lines [(''a'', ''bc'')] None)"
    by (simp add: table_lines_def col1_width_def col2_width_def py_max_def cells_line_def
        ljust_def)
  with table_lines_same_length [of "[(''a'', ''bc'')]" None] show ?thesis
    by blast
qed

text \<open>
  Claim C5, as amended. For the rows of the end-to-end scenario and the default header the
  first column is 16 wide (\<open>Operating system\<close> has 16 characters, not 17) and the second
  is 7 wide (\<open>Test OS\<close> against \<open>Value\<close>); the rule under the header is filled with
  \<open>=\<close> and the two borders around the table with \<open>-\<close>. The table is exactly the
  seven lines below.
\<close>

theorem scenario_table:
  "col1_width scenario_rows default_header = 16
   \<and> col1_width scenario_rows default_header = length ''Operating system''
   \<and> col2_width scenario_rows default_header = 7
   \<and> col2_width scenario_rows default_header = length ''Test OS''
   \<and> table_lines scenario_rows default_header =
       [''+------------------+---------+'',
        ''| Property         | Value   |'',
        ''+-================-+-=======-+'',
        ''| Operating system | Test OS |'',
        ''| Physical cores   | 4       |'',
        ''| Logical cores    | 8       |'',
        ''+------------------+---------+'']"
  by (simp add: scenario_rows_def default_header_def table_lines_def col1_width_def
      col2_width_def py_max_def sep_def cells_line_def ljust_def str_mul_def eval_nat_numeral)

text \<open>
  The claim as written gives the first column 17 characters; the renderer gives it 16,
  the length of \<open>Operating system\<close>.
\<close>

theorem scenario_first_column_not_17:
  "col1_width scenario_rows default_header \<noteq> 17
   \<and> length ''Operating system'' \<noteq> 17
   \<and> length (hd (table_lines scenario_rows default_header)) \<noteq> 17 + 7 + 7"
  by (simp add: scenario_rows_def default_header_def table_lines_def col1_width_def
      col2_width_def py_max_def sep_def str_mul_def)

lemma trim_padding_pad: "trim_padding (s @ replicate n CHR '' '') = trim_padding s"
proof -
  have "dropWhile (\<lambda>c. c = CHR '' '') (replicate n CHR '' '' @ rev s)
      = dropWhile (\<lambda>c. c = CHR '' '') (rev s)"
    by (rule dropWhile_append2) simp
  then show ?thesis by (simp add: trim_padding_def)
qed

lemma trim_padding_ljust: "trim_padding (ljust w s) = trim_padding s"
  by (simp add: ljust_def trim_padding_pad)

lemma trim_padding_id: "trim_padding s = s \<longleftrightarrow> \<not> ends_with_space s"
proof (cases s rule: rev_cases)
  case Nil
  then show ?thesis by (simp add: trim_padding_def ends_with_space_def)
next
  case (snoc xs c)
  show ?thesis
  proof (cases "c = CHR '' ''")
    case True
    have "length (trim_padding s) = length (dropWhile (\<lambda>c. c = CHR '' '') (rev xs))"
      using True by (simp add: snoc trim_padding_def)
    also have "\<dots> \<le> length (rev xs)"
      by (rule length_dropWhile_le)
    finally have "length (trim_padding s) < length s"
      by (simp add: snoc)
    then have "trim_padding s \<noteq> s"
      by auto
    with True show ?thesis by (simp add: snoc ends_with_space_def)
  next
    case False
    then show ?thesis by (simp add: snoc trim_padding_def ends_with_space_def)
  qed
qed

lemma parse_cells_line:
  assumes "length (fst r) \<le> w1" "length (snd r) \<le> w2"
  shows "parse_data_line w1 w2 (cells_line w1 w2 r)
           = (trim_padding (fst r), trim_padding (snd r))"
proof -
  have l1: "length (ljust w1 (fst r)) = w1" and l2: "length (ljust w2 (snd r)) = w2"
    using assms by (simp_all add: length_ljust)
  have a: "take w1 (drop 2 (cells_line w1 w2 r)) = ljust w1 (fst r)"
    using l1 by (simp add: cells_line_def)
  have c: "cells_line w1 w2 r = (''| '' @ ljust w1 (fst r) @ '' | '') @ ljust w2 (snd r) @ '' |''"
    by (simp add: cells_line_def)
  have "length (''| '' @ ljust w1 (fst r) @ '' | '') = w1 + 5"
    using l1 by simp
  then have "drop (w1 + 5) (cells_line w1 w2 r) = ljust w2 (snd r) @ '' |''"
    unfolding c by (metis append_eq_conv_conj)
  then have b: "take w2 (drop (w1 + 5) (cells_line w1 w2 r)) = ljust w2 (snd r)"
    using l2 by simp
  show ?thesis by (simp add: parse_data_line_def a b trim_padding_ljust)
qed

lemma data_lines_table:
  "data_lines (header \<noteq> None) (table_lines rows header)
     = map (cells_line (col1_width rows header) (col2_width rows header)) rows"
  by (cases header) (simp_all add: data_lines_def table_lines_def Let_def butlast_append)

lemma takeWhile_str_mul: "c \<noteq> d \<Longrightarrow> takeWhile (\<lambda>x. x \<noteq> d) (str_mul [c] n @ d # rest) = str_mul [c] n"
  by (induction n) (simp_all add: str_mul_def)

lemma border_widths:
  "length (takeWhile (\<lambda>c. c \<noteq> CHR ''+'') (drop 1 (sep w1 w2 ''-''))) - 2 = w1"
proof -
  have "drop 1 (sep w1 w2 ''-'') = str_mul ''-'' (Suc w1) @ CHR ''-'' # CHR ''+'' # (''-'' @ str_mul ''-'' w2 @ ''-+'')"
    by (simp add: sep_def str_mul_def)
  also have "\<dots> = str_mul ''-'' (Suc (Suc w1)) @ CHR ''+'' # (''-'' @ str_mul ''-'' w2 @ ''-+'')"
    by (simp add: str_mul_def replicate_append_same)
  finally have "takeWhile (\<lambda>c. c \<noteq> CHR ''+'') (drop 1 (sep w1 w2 ''-'')) = str_mul ''-'' (Suc (Suc w1))"
    by (simp only: takeWhile_str_mul[of "CHR ''-''" "CHR ''+''", simplified])
  then show ?thesis by (simp add: length_str_mul)
qed

lemma parse_table_lines:
  "parse_table (header \<noteq> None) (table_lines rows header)
     = map (\<lambda>r. (trim_padding (fst r), trim_padding (snd r))) rows"
proof -
  let ?w1 = "col1_width rows header" and ?w2 = "col2_width rows header"
  obtain rest where t: "table_lines rows header = sep ?w1 ?w2 ''-'' # rest"
    by (simp add: table_lines_def Let_def)
  have "parse_table (header \<noteq> None) (table_lines rows header)
      = map (parse_data_line ?w1 ?w2) (data_lines (header \<noteq> None) (table_lines rows header))"
    unfolding parse_table_def t list.case Let_def border_widths length_sep
    by (simp add: t)
  also have "\<dots> = map (parse_data_line ?w1 ?w2) (map (cells_line ?w1 ?w2) rows)"
    by (simp only: data_lines_table)
  also have "\<dots> = map (\<lambda>r. (trim_padding (fst r), trim_padding (snd r))) rows"
    by (simp add: parse_cells_line col1_width_row col2_width_row)
  finally show ?thesis .
qed

text \<open>
  Claim C6, as amended. Rendering rows and reading the data lines back, by the fixed
  column positions and with the padding trimmed, gives the rows back exactly when no
  label and no value ends with a space. The padding is spaces on the right of a cell, so
  a cell cannot tell them from spaces at the end of its own text; white space in front
  and white space of another kind at the end are kept.
\<close>

theorem table_round_trip:
  "parse_table (header \<noteq> None) (table_lines rows header) = rows
   \<longleftrightarrow> (\<forall>r \<in> set rows. \<not> ends_with_space (fst r) \<and> \<not> ends_with_space (snd r))"
proof -
  have "map (\<lambda>r. (trim_padding (fst r), trim_padding (snd r))) rows = rows
     \<longleftrightarrow> (\<forall>r \<in> set rows. \<not> ends_with_space (fst r) \<and> \<not> ends_with_space (snd r))"
    by (induction rows) (simp_all add: prod_eq_iff trim_padding_id)
  then show ?thesis by (simp only: parse_table_lines)
qed

theorem table_round_trip_witness:
  "parse_table True (table_lines [('' a'', ''b'' @ [CHR 0x09]), (''Operating system'', ''Test OS'')]
       default_header)
     = [('' a'', ''b'' @ [CHR 0x09]), (''Operating system'', ''Test OS'')]"
proof -
  let ?rows = "[('' a'', ''b'' @ [CHR 0x09]), (''Operating system'', ''Test OS'')]"
  have "\<forall>r \<in> set ?rows. \<not> ends_with_space (fst r) \<and> \<not> ends_with_space (snd r)"
    by (simp add: ends_with_space_def)
  with table_round_trip [of default_header ?rows] show ?thesis
    by (simp add: default_header_def)
qed

text \<open>
  The claim as written is for every list of rows. The label \<open>a \<close>, which ends with a
  space, does not come back: the reader returns \<open>a\<close>.
\<close>

theorem table_round_trip_trailing_space:
  "parse_table True (table_lines [(''a '', ''b'')] default_header) = [(''a'', ''b'')]
   \<and> parse_table True (table_lines [(''a '', ''b'')] default_header) \<noteq> [(''a '', ''b'')]"
  by (simp add: parse_table_def table_lines_def default_header_def col1_width_def
      col2_width_def py_max_def sep_def cells_line_def ljust_def str_mul_def data_lines_def
      parse_data_line_def trim_padding_def)

section \<open>Properties of the CPU inspector\<close>

lemma try_except_total: "\<exists>v. try_except m (\<lambda>e. Inr d) = Inr v"
  by (cases m) (simp_all add: try_except_def)

lemma with_psutil_returns: "\<exists>v. get_physical_cpu_count_with_psutil h = Inr v"
  unfolding get_physical_cpu_count_with_psutil_def by (rule try_except_total)

lemma windows_count_returns: "\<exists>v. get_physical_cpu_count_windows h = Inr v"
  unfolding get_physical_cpu_count_windows_def by (rule try_except_total)

lemma cpuinfo_pairs_returns: "\<exists>v. cpuinfo_pairs h = Inr v"
  unfolding cpuinfo_pairs_def by (rule try_except_total)

lemma sysfs_pairs_returns: "\<exists>v. sysfs_pairs h = Inr v"
  unfolding sysfs_pairs_def by (rule try_except_total)

lemma cpu_cores_field_returns: "\<exists>v. cpu_cores_field h = Inr v"
  unfolding cpu_cores_field_def by (rule try_except_total)

lemma linux_count_returns: "\<exists>v. get_physical_cpu_count_linux h = Inr v"
proof -
  obtain r1 r2 r3 where "cpuinfo_pairs h = Inr r1" "sysfs_pairs h = Inr r2" "cpu_cores_field h = Inr r3"
    using cpuinfo_pairs_returns sysfs_pairs_returns cpu_cores_field_returns by blast
  then show ?thesis
    by (simp add: get_physical_cpu_count_linux_def and_then_def split: option.split)
qed

lemma platform_count_returns: "\<exists>v. platform_cpu_count h = Inr v"
  using windows_count_returns [of h] linux_count_returns [of h]
  by (auto simp: platform_cpu_count_def Let_def)

lemma logical_count_value:
  "get_logical_cpu_count h = Inr (case os_cpu_count h of Some c \<Rightarrow> if c > 0 then c else 1 | None \<Rightarrow> 1)"
  by (simp add: get_logical_cpu_count_def split: option.split)

lemma logical_count_positive: "\<exists>n. get_logical_cpu_count h = Inr n \<and> 1 \<le> n"
  by (simp add: logical_count_value split: option.split)

lemma positive_Some: "positive v = Some n \<Longrightarrow> 1 \<le> n"
  by (auto simp: positive_def split: option.splits if_splits)

lemma physical_count_positive: "\<exists>n. get_physical_cpu_count h = Inr n \<and> 1 \<le> n"
proof -
  obtain a b where a: "get_physical_cpu_count_with_psutil h = Inr a" and b: "platform_cpu_count h = Inr b"
    using with_psutil_returns platform_count_returns by blast
  show ?thesis
  proof (cases "positive a")
    case (Some n)
    then show ?thesis using a positive_Some [OF Some]
      by (simp add: get_physical_cpu_count_def and_then_def)
  next
    case None
    show ?thesis
    proof (cases "positive b")
      case (Some n)
      then show ?thesis using a b None positive_Some [OF Some]
        by (simp add: get_physical_cpu_count_def and_then_def)
    next
      case None': None
      then show ?thesis using a b None logical_count_positive [of h]
        by (simp add: get_physical_cpu_count_def and_then_def)
    qed
  qed
qed

text \<open>
  Claim C1. On every host \<^verbatim>\<open>get_logical_cpu_count\<close> returns an integer that is at least
  1, and it is 1 when \<^verbatim>\<open>os.cpu_count\<close> gives \<^verbatim>\<open>None\<close>, zero or a negative number.
  \<^verbatim>\<open>get_physical_cpu_count\<close> returns an integer that is at least 1 and never raises;
  when the psutil step and the step for the platform both give \<^verbatim>\<open>None\<close>, it returns
  what \<^verbatim>\<open>get_logical_cpu_count\<close> returns.
\<close>

theorem cpu_counts_at_least_one:
  "(\<exists>n. get_logical_cpu_count h = Inr n \<and> 1 \<le> n)
   \<and> ((case os_cpu_count h of None \<Rightarrow> True | Some c \<Rightarrow> c \<le> 0) \<longrightarrow> get_logical_cpu_count h = Inr 1)
   \<and> (\<exists>n. get_physical_cpu_count h = Inr n \<and> 1 \<le> n)
   \<and> (get_physical_cpu_count_with_psutil h = Inr None \<and> platform_cpu_count h = Inr None
        \<longrightarrow> get_physical_cpu_count h = get_logical_cpu_count h)"
proof (intro conjI impI)
  show "\<exists>n. get_logical_cpu_count h = Inr n \<and> 1 \<le> n" by (rule logical_count_positive)
  show "\<exists>n. get_physical_cpu_count h = Inr n \<and> 1 \<le> n" by (rule physical_count_positive)
  show "get_logical_cpu_count h = Inr 1" if "case os_cpu_count h of None \<Rightarrow> True | Some c \<Rightarrow> c \<le> 0"
    using that by (simp add: logical_count_value split: option.splits)
  show "get_physical_cpu_count h = get_logical_cpu_count h"
    if "get_physical_cpu_count_with_psutil h = Inr None \<and> platform_cpu_count h = Inr None"
    using that by (simp add: get_physical_cpu_count_def and_then_def positive_def)
qed

lemma bare_host_simps:
  "platform_system bare_host = ''Other''"
  "os_cpu_count bare_host = None"
  "psutil_cpu_count bare_host = Inl ImportError"
  by (simp_all add: bare_host_def)

theorem cpu_counts_at_least_one_witness:
  "get_physical_cpu_count_with_psutil (bare_host\<lparr>os_cpu_count := Some 0\<rparr>) = Inr None
   \<and> platform_cpu_count (bare_host\<lparr>os_cpu_count := Some 0\<rparr>) = Inr None
   \<and> get_logical_cpu_count (bare_host\<lparr>os_cpu_count := Some 0\<rparr>) = Inr 1
   \<and> get_physical_cpu_count (bare_host\<lparr>os_cpu_count := Some 0\<rparr>) = Inr 1"
proof -
  let ?h = "bare_host\<lparr>os_cpu_count := Some 0\<rparr>"
  have a: "get_physical_cpu_count_with_psutil ?h = Inr None"
    by (simp add: get_physical_cpu_count_with_psutil_def try_except_def and_then_def bare_host_def)
  have b: "platform_cpu_count ?h = Inr None"
    by (simp add: platform_cpu_count_def bare_host_def)
  have c: "case os_cpu_count ?h of None \<Rightarrow> True | Some c \<Rightarrow> c \<le> 0"
    by simp
  from cpu_counts_at_least_one [of ?h] a b c show ?thesis
    by simp
qed

section \<open>Properties of the memory inspector\<close>

lemma and_then_Inr [simp]: "and_then (Inr v) f = f v"
  by (simp add: and_then_def)

lemma and_then_Inl [simp]: "and_then (Inl e) f = Inl e"
  by (simp add: and_then_def)

lemma try_except_Inr [simp]: "try_except (Inr v) handler = Inr v"
  by (simp add: try_except_def)

lemma try_except_Inl [simp]: "try_except (Inl e) handler = handler e"
  by (simp add: try_except_def)

lemma at_end_None [simp]: "at_end None v = Inr v"
  by (simp add: at_end_def)






lemma linux_host_simps:
  "open_text (linux_host files) path =
     (case map_of files path of Some text \<Rightarrow> Inr (text, None) | None \<Rightarrow> Inl FileNotFoundError)"
  "platform_system (linux_host files) = ''Linux''"
  "os_sysconf (linux_host files) = (\<lambda>name. Inl ValueError)"
  "glob_glob (linux_host files) = (\<lambda>pattern. [])"
  "int_max_str_digits (linux_host files) = 4300"
  by (simp_all add: linux_host_def bare_host_def)


















lemma sysconf_pages_value:
  "os_sysconf h ''SC_PAGE_SIZE'' = Inr ps \<Longrightarrow> os_sysconf h name = Inr n \<Longrightarrow>
   sysconf_pages h name = Inr (ps * n)"
  by (simp add: sysconf_pages_def)





section \<open>Which inspectors raise\<close>

lemma build_number_returns: "\<exists>v. get_windows_build_number h = Inr v"
  unfolding get_windows_build_number_def by (rule try_except_total)

lemma os_name_returns: "\<exists>v. get_os_name h = Inr v"
proof -
  obtain ed where ed: "try_except (platform_win32_edition h) (\<lambda>e. Inr (Some [])) = Inr ed"
    using try_except_total [of "platform_win32_edition h" "Some []"] by blast
  obtain b where b: "get_windows_build_number h = Inr b"
    using build_number_returns by blast
  obtain p where p: "try_except
       (and_then (open_text h ''/etc/os-release'') (\<lambda>f.
        and_then (pretty_name_loop (snd f) (readlines (fst f))) (\<lambda>pretty.
          if truthy pretty then Inr pretty else Inr None)))
       (\<lambda>e. Inr None) = Inr p"
    by (rule exE [OF try_except_total])
  show ?thesis
    unfolding get_os_name_def Let_def ed b p by (simp split: option.split)
qed

lemma windows_install_returns: "\<exists>v. get_windows_install_datetime h = Inr v"
  unfolding get_windows_install_datetime_def by (rule try_except_total)

lemma linux_install_returns: "\<exists>v. get_linux_install_datetime h = Inr v"
  by (simp add: get_linux_install_datetime_def split: list.split)

lemma os_install_returns: "\<exists>v. get_os_install_datetime h = Inr v"
  using windows_install_returns [of h] linux_install_returns [of h]
  by (simp add: get_os_install_datetime_def Let_def)

lemma gpu_names_candidates: "get_gpu_names h = Inr (unique_ordered (gpu_candidates h))"
  by (simp add: get_gpu_names_def gpu_candidates_def get_gpu_names_windows_def
      get_gpu_names_linux_def unique_ordered_def Let_def)

lemma other_os_pages_value:
  "other_os_pages h name =
     (case sysconf_pages h name of
        Inr n \<Rightarrow> Inr n
      | Inl e \<Rightarrow> Inl (NotImplementedError (''Unsupported OS: '' @ platform_system h)))"
  by (simp add: other_os_pages_def try_except_def split: sum.split)

lemma sysconf_pages_fails:
  "(\<exists>e. os_sysconf h ''SC_PAGE_SIZE'' = Inl e) \<or> (\<exists>e. os_sysconf h name = Inl e) \<Longrightarrow>
   \<exists>e. sysconf_pages h name = Inl e"
  by (cases "os_sysconf h ''SC_PAGE_SIZE''") (auto simp: sysconf_pages_def)

text \<open>
  Claim C9. On a system that is neither Windows nor Linux \<^verbatim>\<open>get_total_ram_bytes\<close> and
  \<^verbatim>\<open>get_free_ram_bytes\<close> return the page size times the page count when both
  \<^verbatim>\<open>sysconf\<close> queries answer, and raise \<^verbatim>\<open>NotImplementedError\<close> with the message
  \<open>Unsupported OS: \<close> and the name of the system when one of them fails; no value stands
  in. The other inspectors return on every host, and there is a host on which the two RAM
  queries raise.
\<close>

theorem ram_queries_raise:
  "(platform_system h \<noteq> ''Windows'' \<and> platform_system h \<noteq> ''Linux'' \<longrightarrow>
      (os_sysconf h ''SC_PAGE_SIZE'' = Inr page_size \<and> os_sysconf h ''SC_PHYS_PAGES'' = Inr pages
         \<longrightarrow> get_total_ram_bytes h = Inr (page_size * pages))
    \<and> (os_sysconf h ''SC_PAGE_SIZE'' = Inr page_size \<and> os_sysconf h ''SC_AVPHYS_PAGES'' = Inr pages
         \<longrightarrow> get_free_ram_bytes h = Inr (page_size * pages))
    \<and> ((\<exists>e. os_sysconf h ''SC_PAGE_SIZE'' = Inl e) \<or> (\<exists>e. os_sysconf h ''SC_PHYS_PAGES'' = Inl e)
         \<longrightarrow> get_total_ram_bytes h
               = Inl (NotImplementedError (''Unsupported OS: '' @ platform_system h)))
    \<and> ((\<exists>e. os_sysconf h ''SC_PAGE_SIZE'' = Inl e) \<or> (\<exists>e. os_sysconf h ''SC_AVPHYS_PAGES'' = Inl e)
         \<longrightarrow> get_free_ram_bytes h
               = Inl (NotImplementedError (''Unsupported OS: '' @ platform_system h))))
   \<and> (\<exists>v. get_logical_cpu_count h = Inr v)
   \<and> (\<exists>v. get_physical_cpu_count h = Inr v)
   \<and> (\<exists>v. get_os_name h = Inr v)
   \<and> (\<exists>v. get_os_install_datetime h = Inr v)
   \<and> (\<exists>v. get_gpu_names h = Inr v)
   \<and> get_total_ram_bytes bare_host = Inl (NotImplementedError ''Unsupported OS: Other'')
   \<and> get_free_ram_bytes bare_host = Inl (NotImplementedError ''Unsupported OS: Other'')"
proof (intro conjI impI)
  assume "platform_system h \<noteq> ''Windows'' \<and> platform_system h \<noteq> ''Linux''"
  then have t: "get_total_ram_bytes h = other_os_pages h ''SC_PHYS_PAGES''"
    and f: "get_free_ram_bytes h = other_os_pages h ''SC_AVPHYS_PAGES''"
    by (simp_all add: get_total_ram_bytes_def get_free_ram_bytes_def)
  show "get_total_ram_bytes h = Inr (page_size * pages)"
    if "os_sysconf h ''SC_PAGE_SIZE'' = Inr page_size \<and> os_sysconf h ''SC_PHYS_PAGES'' = Inr pages"
    using that by (simp add: t other_os_pages_value sysconf_pages_value)
  show "get_free_ram_bytes h = Inr (page_size * pages)"
    if "os_sysconf h ''SC_PAGE_SIZE'' = Inr page_size \<and> os_sysconf h ''SC_AVPHYS_PAGES'' = Inr pages"
    using that by (simp add: f other_os_pages_value sysconf_pages_value)
  show "get_total_ram_bytes h = Inl (NotImplementedError (''Unsupported OS: '' @ platform_system h))"
    if "(\<exists>e. os_sysconf h ''SC_PAGE_SIZE'' = Inl e) \<or> (\<exists>e. os_sysconf h ''SC_PHYS_PAGES'' = Inl e)"
    using sysconf_pages_fails [OF that] by (auto simp: t other_os_pages_value)
  show "get_free_ram_bytes h = Inl (NotImplementedError (''Unsupported OS: '' @ platform_system h))"
    if "(\<exists>e. os_sysconf h ''SC_PAGE_SIZE'' = Inl e) \<or> (\<exists>e. os_sysconf h ''SC_AVPHYS_PAGES'' = Inl e)"
    using sysconf_pages_fails [OF that] by (auto simp: f other_os_pages_value)
next
  show "\<exists>v. get_logical_cpu_count h = Inr v"
    using logical_count_positive by blast
  show "\<exists>v. get_physical_cpu_count h = Inr v"
    using physical_count_positive by blast
  show "\<exists>v. get_os_name h = Inr v" by (rule os_name_returns)
  show "\<exists>v. get_os_install_datetime h = Inr v" by (rule os_install_returns)
  show "\<exists>v. get_gpu_names h = Inr v" by (simp add: gpu_names_candidates)
  show "get_total_ram_bytes bare_host = Inl (NotImplementedError ''Unsupported OS: Other'')"
    by (simp add: get_total_ram_bytes_def other_os_pages_def sysconf_pages_def bare_host_def)
  show "get_free_ram_bytes bare_host = Inl (NotImplementedError ''Unsupported OS: Other'')"
    by (simp add: get_free_ram_bytes_def other_os_pages_def sysconf_pages_def bare_host_def)
qed

theorem ram_queries_raise_witness:
  "get_total_ram_bytes (bare_host \<lparr> os_sysconf := (\<lambda>name. Inr 4096) \<rparr>) = Inr 16777216
   \<and> get_free_ram_bytes (bare_host \<lparr> os_sysconf := (\<lambda>name. Inr 4096) \<rparr>) = Inr 16777216
   \<and> get_total_ram_bytes
        (bare_host \<lparr> os_sysconf := (\<lambda>name. if name = ''SC_PAGE_SIZE'' then Inr 4096 else Inl ValueError) \<rparr>)
       = Inl (NotImplementedError ''Unsupported OS: Other'')
   \<and> get_free_ram_bytes
        (bare_host \<lparr> os_sysconf := (\<lambda>name. if name = ''SC_PAGE_SIZE'' then Inr 4096 else Inl ValueError) \<rparr>)
       = Inl (NotImplementedError ''Unsupported OS: Other'')"
proof -
  let ?h1 = "bare_host \<lparr> os_sysconf := (\<lambda>name. Inr 4096) \<rparr>"
  let ?h2 = "bare_host \<lparr> os_sysconf := (\<lambda>name. if name = ''SC_PAGE_SIZE'' then Inr 4096 else Inl ValueError) \<rparr>"
  have s: "platform_system ?h1 = ''Other''" "platform_system ?h2 = ''Other''"
    by (simp_all add: bare_host_def)
  have "get_total_ram_bytes ?h1 = Inr 16777216 \<and> get_free_ram_bytes ?h1 = Inr 16777216"
    using ram_queries_raise [of ?h1 4096 4096] s by simp
  moreover have "get_total_ram_bytes ?h2 = Inl (NotImplementedError ''Unsupported OS: Other'')
      \<and> get_free_ram_bytes ?h2 = Inl (NotImplementedError ''Unsupported OS: Other'')"
    using ram_queries_raise [of ?h2] s by simp
  ultimately show ?thesis by simp
qed

section \<open>Properties of the install date\<close>

lemma set_collect_fold:
  "set (fold (\<lambda>path timestamps.
                case path_timestamp h path of Inr ts \<Rightarrow> timestamps @ [ts] | Inl e \<Rightarrow> timestamps)
          paths acc)
     = set acc \<union> {d. \<exists>p \<in> set paths. path_timestamp h p = Inr d}"
proof (induction paths arbitrary: acc)
  case Nil
  show ?case by simp
next
  case (Cons p ps)
  show ?case
    by (cases "path_timestamp h p") (auto simp: Cons.IH)
qed

lemma set_collect_timestamps:
  "set (collect_timestamps h paths) = {d. \<exists>p \<in> set paths. path_timestamp h p = Inr d}"
  by (simp add: collect_timestamps_def set_collect_fold)

lemma path_timestamp_Inr:
  "path_timestamp h p = Inr d \<longleftrightarrow> (\<exists>t. os_stat_mtime h p = Inr t \<and> datetime_fromtimestamp h t = Inr d)"
  by (cases "os_stat_mtime h p") (simp_all add: path_timestamp_def)

lemma py_min_least:
  "py_min x xs \<in> set (x # xs) \<and> (\<forall>y \<in> set (x # xs). instant (py_min x xs) \<le> instant y)"
proof (induction xs arbitrary: x)
  case Nil
  show ?case by (simp add: py_min_def)
next
  case (Cons a xs)
  have step: "py_min x (a # xs) = py_min (if instant a < instant x then a else x) xs"
    by (simp add: py_min_def)
  show ?case
    using Cons.IH [of "if instant a < instant x then a else x"]
    unfolding step by (auto split: if_splits)
qed

text \<open>
  Claim C7. On Linux \<^verbatim>\<open>get_os_install_datetime\<close> is \<^verbatim>\<open>_get_linux_install_datetime\<close>, which
  looks at the four paths \<open>/var/log/installer/syslog\<close>, \<open>/var/log/anaconda/anaconda.log\<close>,
  \<open>/var/log/installer\<close> and \<open>/etc\<close>. A path counts when \<^verbatim>\<open>os.stat\<close> and the conversion of
  its modification time both succeed; a path for which one of them raises is passed over.
  With no path that counts the function returns \<^verbatim>\<open>None\<close>; otherwise it returns the
  timestamp of one of them, and no other is earlier. It never raises.
\<close>

theorem linux_install_earliest:
  "(platform_system h = ''Linux'' \<longrightarrow> get_os_install_datetime h = get_linux_install_datetime h)
   \<and> candidate_paths = [''/var/log/installer/syslog'', ''/var/log/anaconda/anaconda.log'',
        ''/var/log/installer'', ''/etc'']
   \<and> ({d. \<exists>p \<in> set candidate_paths. \<exists>t. os_stat_mtime h p = Inr t \<and> datetime_fromtimestamp h t = Inr d} = {}
        \<longrightarrow> get_linux_install_datetime h = Inr None)
   \<and> ({d. \<exists>p \<in> set candidate_paths. \<exists>t. os_stat_mtime h p = Inr t \<and> datetime_fromtimestamp h t = Inr d} \<noteq> {}
        \<longrightarrow> (\<exists>p \<in> set candidate_paths. \<exists>t d.
               os_stat_mtime h p = Inr t \<and> datetime_fromtimestamp h t = Inr d
               \<and> get_linux_install_datetime h = Inr (Some d)
               \<and> (\<forall>p' \<in> set candidate_paths. \<forall>t' d'.
                     os_stat_mtime h p' = Inr t' \<and> datetime_fromtimestamp h t' = Inr d'
                     \<longrightarrow> instant d \<le> instant d')))"
proof (intro conjI impI)
  let ?S = "{d. \<exists>p \<in> set candidate_paths. \<exists>t. os_stat_mtime h p = Inr t \<and> datetime_fromtimestamp h t = Inr d}"
  have S: "set (collect_timestamps h candidate_paths) = ?S"
    by (simp add: set_collect_timestamps path_timestamp_Inr)
  show "get_os_install_datetime h = get_linux_install_datetime h" if "platform_system h = ''Linux''"
    using that by (simp add: get_os_install_datetime_def)
  show "candidate_paths = [''/var/log/installer/syslog'', ''/var/log/anaconda/anaconda.log'',
        ''/var/log/installer'', ''/etc'']"
    by (simp add: candidate_paths_def)
  show "get_linux_install_datetime h = Inr None" if "?S = {}"
  proof -
    from that S have "set (collect_timestamps h candidate_paths) = {}" by simp
    then have "collect_timestamps h candidate_paths = []" by (simp only: set_empty)
    then show ?thesis by (simp add: get_linux_install_datetime_def)
  qed
  show "\<exists>p \<in> set candidate_paths. \<exists>t d.
               os_stat_mtime h p = Inr t \<and> datetime_fromtimestamp h t = Inr d
               \<and> get_linux_install_datetime h = Inr (Some d)
               \<and> (\<forall>p' \<in> set candidate_paths. \<forall>t' d'.
                     os_stat_mtime h p' = Inr t' \<and> datetime_fromtimestamp h t' = Inr d'
                     \<longrightarrow> instant d \<le> instant d')" if "?S \<noteq> {}"
  proof -
    from that S obtain x xs where c: "collect_timestamps h candidate_paths = x # xs"
      by (cases "collect_timestamps h candidate_paths") auto
    then have r: "get_linux_install_datetime h = Inr (Some (py_min x xs))"
      by (simp add: get_linux_install_datetime_def)
    have xs: "set (x # xs) = ?S"
      using c S by simp
    have m: "py_min x xs \<in> ?S" and l: "\<forall>y \<in> ?S. instant (py_min x xs) \<le> instant y"
      using py_min_least [of x xs] unfolding xs by blast+
    from m obtain p t where "p \<in> set candidate_paths" "os_stat_mtime h p = Inr t"
      "datetime_fromtimestamp h t = Inr (py_min x xs)"
      by blast
    with r l show ?thesis by blast
  qed
qed

theorem linux_install_earliest_witness:
  "get_os_install_datetime dated_host = Inr (Some \<lparr> instant = 100, utcoffset = 0 \<rparr>)"
proof -
  let ?h = dated_host
  have sys: "platform_system ?h = ''Linux''"
    by (simp add: dated_host_def)
  have st: "os_stat_mtime ?h ''/var/log/installer/syslog'' = Inl FileNotFoundError"
    "os_stat_mtime ?h ''/var/log/anaconda/anaconda.log'' = Inl FileNotFoundError"
    "os_stat_mtime ?h ''/var/log/installer'' = Inr 100"
    "os_stat_mtime ?h ''/etc'' = Inr 200"
    by (simp_all add: dated_host_def)
  have cv: "\<And>t. datetime_fromtimestamp ?h t = Inr \<lparr> instant = \<lfloor>t\<rfloor>, utcoffset = 0 \<rparr>"
    by (simp add: dated_host_def)
  have ne: "{d. \<exists>p \<in> set candidate_paths. \<exists>t. os_stat_mtime ?h p = Inr t
              \<and> datetime_fromtimestamp ?h t = Inr d} \<noteq> {}"
    using st(4) cv by (auto simp: candidate_paths_def)
  from linux_install_earliest [of ?h] sys ne
  obtain p t d where p: "p \<in> set candidate_paths" and t: "os_stat_mtime ?h p = Inr t"
    and d: "datetime_fromtimestamp ?h t = Inr d"
    and r: "get_os_install_datetime ?h = Inr (Some d)"
    and least: "\<forall>p' \<in> set candidate_paths. \<forall>t' d'.
         os_stat_mtime ?h p' = Inr t' \<and> datetime_fromtimestamp ?h t' = Inr d' \<longrightarrow> instant d \<le> instant d'"
    by auto
  have "''/var/log/installer'' \<in> set candidate_paths"
    by (simp add: candidate_paths_def)
  with least st(3) cv have le: "instant d \<le> 100"
    by fastforce
  from p t st have "t = 100 \<or> t = 200"
    by (auto simp: candidate_paths_def)
  with d cv le have "d = \<lparr> instant = 100, utcoffset = 0 \<rparr>"
    by auto
  with r show ?thesis by simp
qed

section \<open>Properties of the GPU inspector\<close>

lemma lstrip_no_space: "lstrip s = [] \<or> \<not> is_space (hd (lstrip s))"
  unfolding lstrip_def by (metis hd_dropWhile)

lemma rstrip_prefix: "s = rstrip s @ rev (takeWhile is_space (rev s))"
  unfolding rstrip_def by (metis rev_append rev_rev_ident takeWhile_dropWhile_id)

lemma rstrip_last: "rstrip s = [] \<or> \<not> is_space (last (rstrip s))"
proof (cases "rstrip s = []")
  case False
  then have "dropWhile is_space (rev s) \<noteq> []" by (simp add: rstrip_def)
  then have "\<not> is_space (hd (dropWhile is_space (rev s)))" by (rule hd_dropWhile)
  moreover have "last (rstrip s) = hd (dropWhile is_space (rev s))"
    by (simp add: rstrip_def last_rev)
  ultimately show ?thesis by simp
qed simp

lemma rstrip_hd: "rstrip s \<noteq> [] \<Longrightarrow> hd (rstrip s) = hd s"
  by (metis hd_append2 rstrip_prefix)

lemma lstrip_id: "s = [] \<or> \<not> is_space (hd s) \<Longrightarrow> lstrip s = s"
  by (cases s) (auto simp: lstrip_def)

lemma rstrip_id: "s = [] \<or> \<not> is_space (last s) \<Longrightarrow> rstrip s = s"
proof -
  assume "s = [] \<or> \<not> is_space (last s)"
  then have "rev s = [] \<or> \<not> is_space (hd (rev s))" by (auto simp: hd_rev)
  then have "dropWhile is_space (rev s) = rev s" by (cases "rev s") auto
  then show ?thesis by (simp add: rstrip_def)
qed

lemma strip_strip: "strip (strip s) = strip s"
proof (cases "strip s = []")
  case True
  have "strip [] = []" by (simp add: strip_def lstrip_def rstrip_def)
  with True show ?thesis by simp
next
  case False
  then have ne: "rstrip (lstrip s) \<noteq> []" by (simp add: strip_def)
  then have "lstrip s \<noteq> []" by (auto simp: rstrip_def)
  with lstrip_no_space [of s] have "\<not> is_space (hd (lstrip s))" by simp
  with rstrip_hd [OF ne] have "\<not> is_space (hd (strip s))" by (simp add: strip_def)
  then have l: "lstrip (strip s) = strip s" by (simp add: lstrip_id)
  from rstrip_last [of "lstrip s"] ne have "\<not> is_space (last (strip s))" by (simp add: strip_def)
  then have r: "rstrip (strip s) = strip s" by (simp add: rstrip_id)
  show ?thesis
    unfolding strip_def [of "strip s"] l r ..
qed

lemma first_index_Cons:
  "first_index (x # xs) a = (if x = a then 0 else Suc (first_index xs a))"
  by (simp add: first_index_def)

lemma unique_loop_news:
  "\<exists>news. unique_loop items (set result) result = result @ news
     \<and> distinct news
     \<and> set news = (set (map strip items) - {[]}) - set result
     \<and> sorted_wrt (\<lambda>a b. first_index (map strip items) a < first_index (map strip items) b) news"
proof (induction items arbitrary: result)
  case Nil
  show ?case by simp
next
  case (Cons item items)
  let ?v = "strip item"
  let ?zs = "map strip items"
  have shift: "sorted_wrt (\<lambda>a b. first_index (?v # ?zs) a < first_index (?v # ?zs) b) news"
    if "sorted_wrt (\<lambda>a b. first_index ?zs a < first_index ?zs b) news" "?v \<notin> set news" for news
    using that(1)
  proof (rule sorted_wrt_mono_rel [rotated])
    fix a b assume "a \<in> set news" "b \<in> set news" "first_index ?zs a < first_index ?zs b"
    with that(2) show "first_index (?v # ?zs) a < first_index (?v # ?zs) b"
      by (auto simp: first_index_Cons)
  qed
  show ?case
  proof (cases "?v = []")
    case True
    from Cons.IH [of result] obtain news where n: "unique_loop items (set result) result = result @ news"
      "distinct news" "set news = (set ?zs - {[]}) - set result"
      "sorted_wrt (\<lambda>a b. first_index ?zs a < first_index ?zs b) news"
      by blast
    from n(3) True have "?v \<notin> set news" by auto
    from shift [OF n(4) this] n(1,2,3) True show ?thesis
      by (intro exI [of _ news]) auto
  next
    case False
    show ?thesis
    proof (cases "?v \<in> set result")
      case True
      from Cons.IH [of result] obtain news where n: "unique_loop items (set result) result = result @ news"
        "distinct news" "set news = (set ?zs - {[]}) - set result"
        "sorted_wrt (\<lambda>a b. first_index ?zs a < first_index ?zs b) news"
        by blast
      from n(3) True have "?v \<notin> set news" by auto
      from shift [OF n(4) this] n(1,2,3) True False show ?thesis
        by (intro exI [of _ news]) auto
    next
      case nin: False
      from Cons.IH [of "result @ [?v]"] obtain news where
        n: "unique_loop items (set (result @ [?v])) (result @ [?v]) = (result @ [?v]) @ news"
        "distinct news" "set news = (set ?zs - {[]}) - set (result @ [?v])"
        "sorted_wrt (\<lambda>a b. first_index ?zs a < first_index ?zs b) news"
        by blast
      from n(3) have vn: "?v \<notin> set news" by auto
      have "sorted_wrt (\<lambda>a b. first_index (?v # ?zs) a < first_index (?v # ?zs) b) (?v # news)"
        using shift [OF n(4) vn] vn by (auto simp: first_index_Cons)
      moreover have "unique_loop (item # items) (set result) result = result @ (?v # news)"
        using n(1) False nin by simp
      moreover have "distinct (?v # news)" using n(2) vn by simp
      moreover have "set (?v # news) = (set (map strip (item # items)) - {[]}) - set result"
        using n(3) False nin by auto
      ultimately show ?thesis
        by (intro exI [of _ "?v # news"]) simp
    qed
  qed
qed

lemma unique_ordered_props:
  "distinct (unique_ordered items)
   \<and> set (unique_ordered items) = set (map strip items) - {[]}
   \<and> sorted_wrt (\<lambda>a b. first_index (map strip items) a < first_index (map strip items) b)
        (unique_ordered items)"
  using unique_loop_news [of items "[]"] by (auto simp: unique_ordered_def)

text \<open>
  Claim C8. For every list of candidate names, the list \<^verbatim>\<open>_unique_ordered\<close> returns has
  no duplicates; each of its entries is not empty and has no white space around it; its
  entries are the trimmed candidates that are not empty; and of two entries the one that
  stands first is the one first seen earlier among the trimmed candidates.
  \<^verbatim>\<open>get_gpu_names\<close> never raises: it returns \<^verbatim>\<open>_unique_ordered\<close> of the candidates its
  fallback steps gathered. The empty list is a result, and on a system that is neither
  Windows nor Linux it is the result.
\<close>

theorem gpu_names_unique_ordered:
  "distinct (unique_ordered items)
   \<and> (\<forall>v \<in> set (unique_ordered items). v \<noteq> [] \<and> strip v = v)
   \<and> set (unique_ordered items) = {strip i | i. i \<in> set items \<and> strip i \<noteq> []}
   \<and> sorted_wrt (\<lambda>a b. first_index (map strip items) a < first_index (map strip items) b)
        (unique_ordered items)
   \<and> unique_ordered [] = []
   \<and> get_gpu_names h = Inr (unique_ordered (gpu_candidates h))
   \<and> (platform_system h \<noteq> ''Windows'' \<and> platform_system h \<noteq> ''Linux''
        \<longrightarrow> get_gpu_names h = Inr [])"
proof -
  note p = unique_ordered_props [of items]
  have s: "set (unique_ordered items) = {strip i | i. i \<in> set items \<and> strip i \<noteq> []}"
    using p by auto
  have "\<forall>v \<in> set (unique_ordered items). v \<noteq> [] \<and> strip v = v"
    unfolding s by (auto simp: strip_strip)
  moreover have "unique_ordered [] = []"
    by (simp add: unique_ordered_def)
  moreover have "get_gpu_names h = Inr []"
    if "platform_system h \<noteq> ''Windows'' \<and> platform_system h \<noteq> ''Linux''"
    using that by (simp add: get_gpu_names_def)
  ultimately show ?thesis
    using p s gpu_names_candidates [of h] by blast
qed

theorem gpu_names_unique_ordered_witness:
  "get_gpu_names bare_host = Inr []
   \<and> ''a'' \<in> set (unique_ordered ['' a'', ''b'', ''a''])
   \<and> strip ''a'' = ''a''"
proof -
  have sys: "platform_system bare_host \<noteq> ''Windows'' \<and> platform_system bare_host \<noteq> ''Linux''"
    by (simp add: bare_host_def)
  have st: "strip '' a'' = ''a''"
    by (simp add: strip_def lstrip_def rstrip_def is_space_def)
  have "''a'' \<in> {strip i | i. i \<in> set ['' a'', ''b'', ''a''] \<and> strip i \<noteq> []}"
    using st by force
  with gpu_names_unique_ordered [of "['' a'', ''b'', ''a'']" bare_host] sys show ?thesis
    by blast
qed

section \<open>Properties of the processor table\<close>

lemma startswith_Nil [simp]: "\<not> startswith [] (c # cs)"
  by (simp add: startswith_def)

lemma physical_not_core: "startswith l ''physical id'' \<Longrightarrow> \<not> startswith l ''core id''"
  by (cases l) (auto simp: startswith_def)

lemma split1_second:
  "c \<in> set l \<Longrightarrow> py_nth (split1 c l) (Suc 0) = Inr (drop 1 (dropWhile (\<lambda>x. x \<noteq> c) l))"
  by (simp add: split1_def py_nth_def)

lemma field_value_snoc:
  "field_value key (cur @ [l]) =
     (if startswith l key then Some (strip (drop 1 (dropWhile (\<lambda>c. c \<noteq> CHR '':'') l)))
      else field_value key cur)"
  by (simp add: field_value_def)

lemma field_value_Nil [simp]: "field_value key [] = None"
  by (simp add: field_value_def)

lemma add_pair_block:
  "add_pair (P, field_value ''physical id'' cur, field_value ''core id'' cur)
     = P \<union> {(p, c). block_pair cur = (Some p, Some c)}"
  by (auto simp: add_pair_def block_pair_def split: option.splits)

lemma cpuinfo_line_blank:
  "strip r = [] \<Longrightarrow> cpuinfo_line st r = Inr (add_pair st, None, None)"
  by (simp add: cpuinfo_line_def)

lemma cpuinfo_line_field:
  assumes "strip r \<noteq> []"
    and "startswith (strip r) ''physical id'' \<or> startswith (strip r) ''core id''
           \<longrightarrow> CHR '':'' \<in> set (strip r)"
  shows "cpuinfo_line (P, field_value ''physical id'' cur, field_value ''core id'' cur) r
           = Inr (P, field_value ''physical id'' (cur @ [strip r]),
                     field_value ''core id'' (cur @ [strip r]))"
proof (cases "startswith (strip r) ''physical id''")
  case True
  with assms show ?thesis
    by (simp add: cpuinfo_line_def split1_second field_value_snoc physical_not_core)
next
  case False
  with assms show ?thesis
    by (simp add: cpuinfo_line_def split1_second field_value_snoc)
qed

lemma cpuinfo_loop_blocks:
  assumes "\<forall>r \<in> set raws. startswith (strip r) ''physical id'' \<or> startswith (strip r) ''core id''
             \<longrightarrow> CHR '':'' \<in> set (strip r)"
  shows "\<exists>st. for_each cpuinfo_line raws
                 (P, field_value ''physical id'' cur, field_value ''core id'' cur) = Inr st
            \<and> add_pair st
                = P \<union> {(p, c). \<exists>b \<in> set (blocks_acc cur (map strip raws)).
                                  block_pair b = (Some p, Some c)}"
  using assms
proof (induction raws arbitrary: P cur)
  case Nil
  show ?case by (auto simp: add_pair_block block_pair_def)
next
  case (Cons r rs)
  from Cons.prems have wf: "\<forall>r \<in> set rs. startswith (strip r) ''physical id''
      \<or> startswith (strip r) ''core id'' \<longrightarrow> CHR '':'' \<in> set (strip r)"
    by simp
  show ?case
  proof (cases "strip r = []")
    case True
    let ?P = "add_pair (P, field_value ''physical id'' cur, field_value ''core id'' cur)"
    from Cons.IH [OF wf, of ?P "[]"] obtain st where
      st: "for_each cpuinfo_line rs (?P, None, None) = Inr st"
      and ap: "add_pair st = ?P \<union> {(p, c). \<exists>b \<in> set (blocks_acc [] (map strip rs)).
                                  block_pair b = (Some p, Some c)}"
      by auto
    have "for_each cpuinfo_line (r # rs)
            (P, field_value ''physical id'' cur, field_value ''core id'' cur) = Inr st"
      using st True by (simp add: cpuinfo_line_blank)
    moreover have "add_pair st = P \<union> {(p, c). \<exists>b \<in> set (blocks_acc cur (map strip (r # rs))).
                                  block_pair b = (Some p, Some c)}"
      unfolding ap add_pair_block using True by (auto simp: block_pair_def)
    ultimately show ?thesis by blast
  next
    case False
    from Cons.prems have "startswith (strip r) ''physical id'' \<or> startswith (strip r) ''core id''
           \<longrightarrow> CHR '':'' \<in> set (strip r)"
      by simp
    from cpuinfo_line_field [OF False this, of P cur] Cons.IH [OF wf, of P "cur @ [strip r]"] False
    show ?thesis by simp
  qed
qed

lemma in_cur_in_block: "l \<in> set cur \<Longrightarrow> \<exists>b \<in> set (blocks_acc cur ls). l \<in> set b"
proof (induction ls arbitrary: cur)
  case Nil
  then show ?case by auto
next
  case (Cons x xs)
  show ?case
  proof (cases "x = []")
    case True
    with Cons.prems show ?thesis by auto
  next
    case False
    with Cons.IH [of "cur @ [x]"] Cons.prems show ?thesis by simp
  qed
qed

lemma line_in_block:
  "l \<in> set ls \<Longrightarrow> l \<noteq> [] \<Longrightarrow> \<exists>b \<in> set (blocks_acc cur ls). l \<in> set b"
proof (induction ls arbitrary: cur)
  case Nil
  then show ?case by simp
next
  case (Cons x xs)
  show ?case
  proof (cases "l = x")
    case True
    with Cons.prems in_cur_in_block [of x "cur @ [x]" xs] show ?thesis by simp
  next
    case False
    with Cons.prems have "l \<in> set xs" by simp
    from Cons.IH [OF this Cons.prems(2)] show ?thesis by (cases "x = []") auto
  qed
qed

lemma colon_of_blocks:
  assumes "\<forall>b \<in> set (cpuinfo_blocks text). id_lines_have_colon b"
  shows "\<forall>r \<in> set (readlines text). startswith (strip r) ''physical id''
           \<or> startswith (strip r) ''core id'' \<longrightarrow> CHR '':'' \<in> set (strip r)"
proof (intro ballI impI)
  fix r assume r: "r \<in> set (readlines text)"
    and k: "startswith (strip r) ''physical id'' \<or> startswith (strip r) ''core id''"
  from k have "strip r \<noteq> []" by auto
  with r line_in_block [of "strip r" "map strip (readlines text)" "[]"]
  obtain b where b: "b \<in> set (cpuinfo_blocks text)" "strip r \<in> set b"
    by (auto simp: cpuinfo_blocks_def)
  with assms have "id_lines_have_colon b" by simp
  with b(2) k show "CHR '':'' \<in> set (strip r)"
    by (auto simp: id_lines_have_colon_def list_all_iff)
qed

lemma cpuinfo_pairs_blocks:
  assumes "open_text h ''/proc/cpuinfo'' = Inr (text, None)"
    and "\<forall>b \<in> set (cpuinfo_blocks text). id_lines_have_colon b"
  shows "cpuinfo_pairs h =
           Inr (len_if_any {(p, c). \<exists>b \<in> set (cpuinfo_blocks text). block_pair b = (Some p, Some c)})"
proof -
  from cpuinfo_loop_blocks [OF colon_of_blocks [OF assms(2)], of "{}" "[]"]
  obtain st where "for_each cpuinfo_line (readlines text) ({}, None, None) = Inr st"
    and "add_pair st = {(p, c). \<exists>b \<in> set (cpuinfo_blocks text). block_pair b = (Some p, Some c)}"
    by (auto simp: cpuinfo_blocks_def)
  with assms(1) show ?thesis
    by (simp add: cpuinfo_pairs_def for_each_line_def)
qed

lemma pairs_card:
  assumes "\<forall>b \<in> set bs. has_both_ids b"
  shows "card {(p, c). \<exists>b \<in> set bs. block_pair b = (Some p, Some c)}
           = card (set (map block_pair bs))"
proof -
  let ?f = "\<lambda>(p, c). (Some p, Some c) :: string option \<times> string option"
  let ?A = "{(p, c). \<exists>b \<in> set bs. block_pair b = (Some p, Some c)}"
  have img: "?f ` ?A = set (map block_pair bs)"
  proof (intro equalityI subsetI)
    fix x assume "x \<in> ?f ` ?A"
    then show "x \<in> set (map block_pair bs)" by force
  next
    fix x assume "x \<in> set (map block_pair bs)"
    then obtain b where b: "b \<in> set bs" "x = block_pair b" by auto
    with assms obtain p c where "block_pair b = (Some p, Some c)"
      by (auto simp: has_both_ids_def block_pair_def)
    with b show "x \<in> ?f ` ?A"
      by force
  qed
  have "inj_on ?f ?A"
    by (auto simp: inj_on_def)
  then have "card (?f ` ?A) = card ?A"
    by (rule card_image)
  then show ?thesis
    by (simp only: img)
qed

text \<open>
  Claim C2, as amended. Let the processor table read to its end, let every line of it that
  begins with \<open>physical id\<close> or \<open>core id\<close> be a field (it has a colon), let every block
  have both fields, and let the blocks yield \<open>N\<close> distinct pairs with \<open>N\<close> at least 1.
  Then \<^verbatim>\<open>_get_physical_cpu_count_linux\<close> returns \<open>N\<close>.
\<close>

theorem cpuinfo_distinct_pairs:
  assumes "open_text h ''/proc/cpuinfo'' = Inr (text, None)"
    and "\<forall>b \<in> set (cpuinfo_blocks text). id_lines_have_colon b \<and> has_both_ids b"
    and "card (set (map block_pair (cpuinfo_blocks text))) = N"
    and "1 \<le> N"
  shows "get_physical_cpu_count_linux h = Inr (Some (int N))"
proof -
  let ?pairs = "{(p, c). \<exists>b \<in> set (cpuinfo_blocks text). block_pair b = (Some p, Some c)}"
  have c: "card ?pairs = N"
    using pairs_card [of "cpuinfo_blocks text"] assms(2,3) by simp
  have "?pairs \<noteq> {}"
  proof
    assume "?pairs = {}"
    then have "card ?pairs = 0" by (simp only: card.empty)
    with c assms(4) show False by simp
  qed
  with c have "len_if_any ?pairs = Some (int N)"
    by (simp add: len_if_any_def)
  moreover have "cpuinfo_pairs h = Inr (len_if_any ?pairs)"
    using assms(1,2) by (intro cpuinfo_pairs_blocks) simp_all
  ultimately show ?thesis
    by (simp add: get_physical_cpu_count_linux_def)
qed

theorem cpuinfo_distinct_pairs_witness:
  "get_physical_cpu_count_linux (linux_host [(''/proc/cpuinfo'', two_core_cpuinfo)]) = Inr (Some 2)"
proof -
  let ?h = "linux_host [(''/proc/cpuinfo'', two_core_cpuinfo)]"
  have o: "open_text ?h ''/proc/cpuinfo'' = Inr (two_core_cpuinfo, None)"
    by (simp add: linux_host_simps)
  have b: "cpuinfo_blocks two_core_cpuinfo =
      [[''processor : 0'', ''physical id : 0'', ''core id : 0''],
       [''processor : 1'', ''physical id : 0'', ''core id : 1''],
       [''processor : 2'', ''physical id : 0'', ''core id : 0'']]"
    by code_simp
  have p: "map block_pair (cpuinfo_blocks two_core_cpuinfo) =
      [(Some ''0'', Some ''0''), (Some ''0'', Some ''1''), (Some ''0'', Some ''0'')]"
    unfolding b by code_simp
  have w: "\<forall>b \<in> set (cpuinfo_blocks two_core_cpuinfo). id_lines_have_colon b \<and> has_both_ids b"
    unfolding b by code_simp
  have c: "card (set (map block_pair (cpuinfo_blocks two_core_cpuinfo))) = 2"
    unfolding p by (simp add: card_insert_if)
  from cpuinfo_distinct_pairs [OF o w c] show ?thesis
    by simp
qed

text \<open>
  The claim as written is for every count \<open>N\<close>. The empty table has no block, so every
  block of it has both fields and its blocks yield 0 pairs; the function does not return
  0 for it. Its first step finds \<^verbatim>\<open>pairs\<close> empty and goes on, and with no topology
  files and no \<open>cpu cores\<close> line the function returns \<^verbatim>\<open>None\<close>.
\<close>

theorem cpuinfo_no_block:
  "open_text (linux_host [(''/proc/cpuinfo'', [])]) ''/proc/cpuinfo'' = Inr ([], None)
   \<and> cpuinfo_blocks [] = []
   \<and> card (set (map block_pair (cpuinfo_blocks []))) = 0
   \<and> get_physical_cpu_count_linux (linux_host [(''/proc/cpuinfo'', [])]) = Inr None
   \<and> get_physical_cpu_count_linux (linux_host [(''/proc/cpuinfo'', [])]) \<noteq> Inr (Some 0)"
proof -
  let ?h = "linux_host [(''/proc/cpuinfo'', [])]"
  have o: "open_text ?h ''/proc/cpuinfo'' = Inr ([], None)"
    by (simp add: linux_host_simps)
  have b: "cpuinfo_blocks [] = []"
    by (simp add: cpuinfo_blocks_def readlines_def)
  have 1: "cpuinfo_pairs ?h = Inr None"
    by (simp add: cpuinfo_pairs_def for_each_line_def o readlines_def add_pair_def
        len_if_any_def)
  have 2: "sysfs_pairs ?h = Inr None"
    by (simp add: sysfs_pairs_def linux_host_simps len_if_any_def)
  have 3: "cpu_cores_field ?h = Inr None"
    by (simp add: cpu_cores_field_def o readlines_def)
  have "get_physical_cpu_count_linux ?h = Inr None"
    by (simp add: get_physical_cpu_count_linux_def 1 2 3)
  with o b show ?thesis by simp
qed

end
